theory Spec2Isabelle
  imports Complex_Main
begin

section \<open>JavaScript numbers\<close>

text \<open>
  The synthetic market-data generator of \<^verbatim>\<open>demo-server.js\<close> computes on JavaScript
  numbers. A finite number is modelled as a real (idealised arithmetic: no rounding of the
  binary representation, no overflow); the three values a division by zero can create are
  kept apart, because \<^verbatim>\<open>calculateRSI\<close> and the average return of
  \<^verbatim>\<open>generateFuturePredictions\<close> divide by data. The sign of a zero is not
  modelled: a zero divisor is taken to be \<^verbatim>\<open>+0\<close>, which is what the accumulators of
  \<^verbatim>\<open>calculateRSI\<close> hold.
\<close>

datatype jsnum = Fin real | PosInf | NegInf | NaN

fun js_neg :: "jsnum \<Rightarrow> jsnum" where
  "js_neg (Fin a) = Fin (- a)"
| "js_neg PosInf = NegInf"
| "js_neg NegInf = PosInf"
| "js_neg NaN = NaN"

fun js_add :: "jsnum \<Rightarrow> jsnum \<Rightarrow> jsnum" where
  "js_add (Fin a) (Fin b) = Fin (a + b)"
| "js_add NaN y = NaN"
| "js_add x NaN = NaN"
| "js_add PosInf NegInf = NaN"
| "js_add NegInf PosInf = NaN"
| "js_add PosInf y = PosInf"
| "js_add NegInf y = NegInf"
| "js_add x PosInf = PosInf"
| "js_add x NegInf = NegInf"

definition js_sub :: "jsnum \<Rightarrow> jsnum \<Rightarrow> jsnum" where
  "js_sub x y = js_add x (js_neg y)"

text \<open>The sign of an infinite product or quotient: \<open>s\<close> tells whether it is positive.\<close>

definition js_inf :: "bool \<Rightarrow> jsnum" where
  "js_inf s = (if s then PosInf else NegInf)"

fun js_mul :: "jsnum \<Rightarrow> jsnum \<Rightarrow> jsnum" where
  "js_mul (Fin a) (Fin b) = Fin (a * b)"
| "js_mul NaN y = NaN"
| "js_mul x NaN = NaN"
| "js_mul (Fin a) PosInf = (if a = 0 then NaN else js_inf (0 < a))"
| "js_mul (Fin a) NegInf = (if a = 0 then NaN else js_inf (a < 0))"
| "js_mul PosInf (Fin b) = (if b = 0 then NaN else js_inf (0 < b))"
| "js_mul NegInf (Fin b) = (if b = 0 then NaN else js_inf (b < 0))"
| "js_mul PosInf PosInf = PosInf"
| "js_mul NegInf NegInf = PosInf"
| "js_mul PosInf NegInf = NegInf"
| "js_mul NegInf PosInf = NegInf"

fun js_div :: "jsnum \<Rightarrow> jsnum \<Rightarrow> jsnum" where
  "js_div (Fin a) (Fin b) =
     (if b \<noteq> 0 then Fin (a / b) else if a = 0 then NaN else js_inf (0 < a))"
| "js_div NaN y = NaN"
| "js_div x NaN = NaN"
| "js_div (Fin a) PosInf = Fin 0"
| "js_div (Fin a) NegInf = Fin 0"
| "js_div PosInf (Fin b) = js_inf (0 \<le> b)"
| "js_div NegInf (Fin b) = js_inf (b < 0)"
| "js_div PosInf y = NaN"
| "js_div NegInf y = NaN"

text \<open>Comparisons with \<^verbatim>\<open>NaN\<close> are false.\<close>

fun js_lt :: "jsnum \<Rightarrow> jsnum \<Rightarrow> bool" where
  "js_lt (Fin a) (Fin b) = (a < b)"
| "js_lt NaN y = False"
| "js_lt x NaN = False"
| "js_lt x NegInf = False"
| "js_lt PosInf y = False"
| "js_lt NegInf y = True"
| "js_lt x PosInf = True"

definition js_gt :: "jsnum \<Rightarrow> jsnum \<Rightarrow> bool" where
  "js_gt x y = js_lt y x"

fun js_abs :: "jsnum \<Rightarrow> jsnum" where
  "js_abs (Fin a) = Fin \<bar>a\<bar>"
| "js_abs PosInf = PosInf"
| "js_abs NegInf = PosInf"
| "js_abs NaN = NaN"

text \<open>
  Truthiness of a number, as the conditional operator tests it: \<^verbatim>\<open>0\<close> and
  \<^verbatim>\<open>NaN\<close> are falsy. A nullable number is \<open>None\<close> for \<^verbatim>\<open>null\<close>, which is falsy too.
\<close>

fun js_truthy :: "jsnum \<Rightarrow> bool" where
  "js_truthy (Fin a) = (a \<noteq> 0)"
| "js_truthy PosInf = True"
| "js_truthy NegInf = True"
| "js_truthy NaN = False"

fun truthy :: "real option \<Rightarrow> bool" where
  "truthy None = False"
| "truthy (Some a) = (a \<noteq> 0)"

fun js_truthy_opt :: "jsnum option \<Rightarrow> bool" where
  "js_truthy_opt None = False"
| "js_truthy_opt (Some v) = js_truthy v"

text \<open>
  \<^verbatim>\<open>parseFloat(x.toFixed(d))\<close>: the decimal with \<open>d\<close> fraction digits nearest to \<open>x\<close>,
  the larger in magnitude of two equally near ones.
\<close>

definition toFixed :: "nat \<Rightarrow> real \<Rightarrow> real" where
  "toFixed d x =
     (if x < 0 then - (of_int \<lfloor>(- x) * 10 ^ d + 1 / 2\<rfloor> / 10 ^ d)
      else of_int \<lfloor>x * 10 ^ d + 1 / 2\<rfloor> / 10 ^ d)"

fun js_toFixed :: "nat \<Rightarrow> jsnum \<Rightarrow> jsnum" where
  "js_toFixed d (Fin a) = Fin (toFixed d a)"
| "js_toFixed d PosInf = PosInf"
| "js_toFixed d NegInf = NegInf"
| "js_toFixed d NaN = NaN"

text \<open>
  \<^verbatim>\<open>xs.slice(-n)\<close> for a count \<open>n\<close>: the last \<open>n\<close> elements, the whole array when
  it is shorter (and when \<open>n = 0\<close>, since \<^verbatim>\<open>-0\<close> is the index \<^verbatim>\<open>0\<close>).
\<close>

definition slice_last :: "nat \<Rightarrow> 'a list \<Rightarrow> 'a list" where
  "slice_last n xs = (if n = 0 then xs else drop (length xs - n) xs)"

section \<open>Technical indicators\<close>

text \<open>
  The indicator functions take the list of running prices. \<open>None\<close> is \<^verbatim>\<open>null\<close>.
  Every call site passes a positive period (20, 50, 200, 14, 12, 26).
\<close>

definition calculateSMA :: "real list \<Rightarrow> nat \<Rightarrow> real option" where
  "calculateSMA prices period =
     (if length prices < period then None
      else let sum = foldl (+) 0 (slice_last period prices)
           in Some (sum / real period))"

text \<open>
  One pass of the loop body of \<^verbatim>\<open>calculateRSI\<close>, on the pair of accumulators
  \<open>(gains, losses)\<close>.
\<close>

definition rsi_step :: "real list \<Rightarrow> nat \<Rightarrow> real \<times> real \<Rightarrow> real \<times> real" where
  "rsi_step prices i acc =
     (let change = prices ! (length prices - i) - prices ! (length prices - i - 1)
      in if change > 0 then (fst acc + change, snd acc) else (fst acc, snd acc - change))"

definition calculateRSI :: "real list \<Rightarrow> nat \<Rightarrow> jsnum option" where
  "calculateRSI prices period =
     (if length prices < period + 1 then None
      else let acc = fold (rsi_step prices) [1..<Suc period] (0, 0);
               avgGain = fst acc / real period;
               avgLoss = snd acc / real period;
               rs = js_div (Fin avgGain) (Fin avgLoss)
           in Some (js_sub (Fin 100) (js_div (Fin 100) (js_add (Fin 1) rs))))"

definition calculateEMA :: "real list \<Rightarrow> nat \<Rightarrow> real option" where
  "calculateEMA prices period =
     (if length prices < period then None
      else let multiplier = 2 / (real period + 1);
               seed = foldl (+) 0 (take period prices) / real period
           in Some (fold (\<lambda>i ema. (prices ! i - ema) * multiplier + ema)
                      [period..<length prices] seed))"

definition calculateMACD :: "real list \<Rightarrow> real option" where
  "calculateMACD prices =
     (let ema12 = calculateEMA prices 12;
          ema26 = calculateEMA prices 26
      in if \<not> truthy ema12 \<or> \<not> truthy ema26 then None
         else Some (the ema12 - the ema26))"

section \<open>Historical series\<close>

text \<open>
  A point of the series. The \<^verbatim>\<open>timestamp\<close> and \<^verbatim>\<open>date\<close> fields, which are read off the
  wall clock, are left out.
\<close>

record bollinger =
  upper :: "real option"
  lower :: "real option"

record indicators =
  sma20 :: "real option"
  sma50 :: "real option"
  sma200 :: "real option"
  rsi :: "jsnum option"
  macd :: "real option"
  bollinger :: bollinger

record signals =
  trend :: string
  rsi_signal :: string
  macd_signal :: string

record price_point =
  open_price :: real
  high :: real
  low :: real
  close :: real
  volume :: real
  priceInr :: real
  indicators :: indicators
  signals :: signals

text \<open>
  \<^verbatim>\<open>basePrices[symbol] || currentPrice * 0.2\<close>: the table entry of the symbol unless it
  is missing or zero. The table is looked up by its own four keys only: a name that an
  object inherits (\<^verbatim>\<open>toString\<close>, \<^verbatim>\<open>constructor\<close>, ...) would find a function in
  JavaScript and make every price \<^verbatim>\<open>NaN\<close>. Every caller of the generator rejects a
  symbol outside \<^verbatim>\<open>SUPPORTED_COINS\<close> first, so such a name never arrives.
\<close>

definition SUPPORTED_COINS :: "string list" where
  "SUPPORTED_COINS = [''bitcoin'', ''ethereum'', ''solana'', ''dogecoin'']"

definition basePrices :: "real \<Rightarrow> (string \<times> real) list" where
  "basePrices currentPrice =
     [(''bitcoin'', currentPrice * 0.15),
      (''ethereum'', currentPrice * 0.12),
      (''solana'', currentPrice * 0.05),
      (''dogecoin'', currentPrice * 0.3)]"

definition basePrice :: "string \<Rightarrow> real \<Rightarrow> real" where
  "basePrice symbol currentPrice =
     (if truthy (map_of (basePrices currentPrice) symbol)
      then the (map_of (basePrices currentPrice) symbol)
      else currentPrice * 0.2)"

text \<open>
  \<^verbatim>\<open>Math.random()\<close> is an input: \<open>rnd k\<close> is what the \<open>k\<close>-th call returns, counting
  from 0. Day \<open>i\<close> of the historical loop makes the calls \<open>5 * i\<close> to \<open>5 * i + 4\<close>, in the
  order random change, volume, high, low, open. Every value lies in \<open>[0, 1)\<close>.
\<close>

definition valid_random :: "(nat \<Rightarrow> real) \<Rightarrow> bool" where
  "valid_random rnd = (\<forall>k. 0 \<le> rnd k \<and> rnd k < 1)"

text \<open>The update of the running price on day \<open>i\<close> (lines 192 to 198).\<close>

definition next_price :: "string \<Rightarrow> real \<Rightarrow> (nat \<Rightarrow> real) \<Rightarrow> nat \<Rightarrow> real \<Rightarrow> real" where
  "next_price symbol currentPrice rnd i price =
     (let trend = (currentPrice - basePrice symbol currentPrice) / 1095;
          volatility = 0.05;
          randomChange = (rnd (5 * i) - 0.5) * volatility;
          cyclical = sin ((real i / 365) * 2 * pi) * 0.1;
          price1 = price + trend + (price * randomChange) + (price * cyclical)
      in max price1 (basePrice symbol currentPrice * 0.1))"

text \<open>
  The point pushed on day \<open>i\<close>, from the updated price and the price list that already
  holds it (lines 200 to 239).
\<close>

definition make_point :: "(nat \<Rightarrow> real) \<Rightarrow> nat \<Rightarrow> real \<Rightarrow> real list \<Rightarrow> price_point" where
  "make_point rnd i price prices =
     (let volume = rnd (5 * i + 1) * 1000000000;
          high = price * (1 + rnd (5 * i + 2) * 0.02);
          low = price * (1 - rnd (5 * i + 3) * 0.02);
          open = price * (1 + (rnd (5 * i + 4) - 0.5) * 0.01);
          sma20 = calculateSMA prices 20;
          sma50 = calculateSMA prices 50;
          sma200 = calculateSMA prices 200;
          rsi = calculateRSI prices 14;
          macd = calculateMACD prices
      in \<lparr> open_price = toFixed 2 open,
           high = toFixed 2 high,
           low = toFixed 2 low,
           close = toFixed 2 price,
           volume = toFixed 0 volume,
           priceInr = toFixed 2 (price * 83),
           indicators = \<lparr>
             sma20 = (if truthy sma20 then Some (toFixed 2 (the sma20)) else None),
             sma50 = (if truthy sma50 then Some (toFixed 2 (the sma50)) else None),
             sma200 = (if truthy sma200 then Some (toFixed 2 (the sma200)) else None),
             rsi = (if js_truthy_opt rsi then Some (js_toFixed 2 (the rsi)) else None),
             macd = (if truthy macd then Some (toFixed 4 (the macd)) else None),
             bollinger = \<lparr>
               upper = (if truthy sma20 then Some (toFixed 2 (the sma20 * 1.02)) else None),
               lower = (if truthy sma20 then Some (toFixed 2 (the sma20 * 0.98)) else None) \<rparr> \<rparr>,
           signals = \<lparr>
             trend = (if truthy sma20 \<and> truthy sma50
                      then (if the sma20 > the sma50 then ''bullish'' else ''bearish'')
                      else ''neutral''),
             rsi_signal = (if js_truthy_opt rsi
                      then (if js_gt (the rsi) (Fin 70) then ''overbought''
                            else if js_lt (the rsi) (Fin 30) then ''oversold'' else ''neutral'')
                      else ''neutral''),
             macd_signal = (if truthy macd
                      then (if the macd > 0 then ''bullish'' else ''bearish'')
                      else ''neutral'') \<rparr> \<rparr>)"

text \<open>
  The loop over the 1095 days: \<open>price\<close> and \<open>prices\<close> are the loop's variables at the
  head of iteration \<open>i\<close>, the result is the points pushed from day \<open>i\<close> on.
\<close>

function hist_loop ::
  "string \<Rightarrow> real \<Rightarrow> (nat \<Rightarrow> real) \<Rightarrow> nat \<Rightarrow> real \<Rightarrow> real list \<Rightarrow> price_point list" where
  "hist_loop symbol currentPrice rnd i price prices =
     (if i < 1095
      then let price' = next_price symbol currentPrice rnd i price;
               prices' = prices @ [price']
           in make_point rnd i price' prices'
                # hist_loop symbol currentPrice rnd (Suc i) price' prices'
      else [])"
  by pat_completeness auto
termination
  by (relation "measure (\<lambda>(symbol, currentPrice, rnd, i, price, prices). 1095 - i)") auto

declare hist_loop.simps [simp del]

definition generate3YearHistoricalData ::
  "string \<Rightarrow> real \<Rightarrow> (nat \<Rightarrow> real) \<Rightarrow> price_point list" where
  "generate3YearHistoricalData symbol currentPrice rnd =
     hist_loop symbol currentPrice rnd 0 (basePrice symbol currentPrice) []"

text \<open>
  The value of the variable \<open>price\<close> after \<open>n\<close> iterations, and of \<open>prices\<close>: what the
  loop above threads through its calls.
\<close>

primrec price_after :: "string \<Rightarrow> real \<Rightarrow> (nat \<Rightarrow> real) \<Rightarrow> nat \<Rightarrow> real" where
  "price_after symbol currentPrice rnd 0 = basePrice symbol currentPrice"
| "price_after symbol currentPrice rnd (Suc n) =
     next_price symbol currentPrice rnd n (price_after symbol currentPrice rnd n)"

definition prices_after :: "string \<Rightarrow> real \<Rightarrow> (nat \<Rightarrow> real) \<Rightarrow> nat \<Rightarrow> real list" where
  "prices_after symbol currentPrice rnd n =
     map (\<lambda>k. price_after symbol currentPrice rnd (Suc k)) [0..<n]"

text \<open>The point the loop pushes on day \<open>i\<close>, in terms of the two.\<close>

definition point_of_day :: "string \<Rightarrow> real \<Rightarrow> (nat \<Rightarrow> real) \<Rightarrow> nat \<Rightarrow> price_point" where
  "point_of_day symbol currentPrice rnd i =
     make_point rnd i (price_after symbol currentPrice rnd (Suc i))
       (prices_after symbol currentPrice rnd (Suc i))"

section \<open>Predictions\<close>

text \<open>
  A prediction. The \<^verbatim>\<open>date\<close> and \<^verbatim>\<open>timestamp\<close> fields are left out as above; the
  nested \<^verbatim>\<open>range\<close> and \<^verbatim>\<open>factors\<close> objects are flattened. The price fields are
  \<open>jsnum\<close>: the average return divides by closing prices.
\<close>

record prediction =
  predictedPrice :: jsnum
  priceInr_pred :: jsnum
  confidence :: real
  range_high :: jsnum
  range_low :: jsnum
  signal :: string
  factors_trend :: string
  factors_strength :: string

text \<open>
  The average day-over-day return of the last 30 points (lines 252 to 256); the
  reducer resets the sum at index 0.
\<close>

definition avgChange :: "price_point list \<Rightarrow> jsnum" where
  "avgChange historicalData =
     (let recent30Days = slice_last 30 historicalData;
          total = fold (\<lambda>i sum. if i = 0 then Fin 0
                     else js_add sum
                            (js_div (Fin (close (recent30Days ! i) - close (recent30Days ! (i - 1))))
                                    (Fin (close (recent30Days ! (i - 1))))))
                    [0..<length recent30Days] (Fin 0)
      in js_div total (Fin (real (length recent30Days) - 1)))"

text \<open>
  Step \<open>i\<close> of the prediction loop (lines 262 to 288): the new running price and the
  prediction pushed. The step makes the \<open>(i - 1)\<close>-th call of \<^verbatim>\<open>Math.random()\<close>.
\<close>

definition pred_price :: "jsnum \<Rightarrow> (nat \<Rightarrow> real) \<Rightarrow> nat \<Rightarrow> jsnum \<Rightarrow> jsnum" where
  "pred_price avg rnd i price =
     (let trendComponent = js_mul avg (Fin 0.3);
          cyclicalComponent = sin ((real i / 30) * 2 * pi) * 0.02;
          randomComponent = (rnd (i - 1) - 0.5) * 0.03;
          regression = - 0.0001 * real i;
          totalChange = js_add (js_add (js_add trendComponent (Fin cyclicalComponent))
                                       (Fin randomComponent)) (Fin regression)
      in js_mul price (js_add (Fin 1) totalChange))"

definition make_prediction :: "real \<Rightarrow> jsnum \<Rightarrow> nat \<Rightarrow> jsnum \<Rightarrow> prediction" where
  "make_prediction lastPrice avg i price =
     (let confidence = max 0.5 (0.95 - (real i * 0.01));
          volatilityBand = js_mul (js_mul price (Fin 0.1)) (Fin (real i / 30))
      in \<lparr> predictedPrice = js_toFixed 2 price,
           priceInr_pred = js_toFixed 2 (js_mul price (Fin 83)),
           confidence = toFixed 2 confidence,
           range_high = js_toFixed 2 (js_add price volatilityBand),
           range_low = js_toFixed 2 (js_sub price volatilityBand),
           signal = (if js_gt price (Fin lastPrice) then ''bullish''
                     else if js_lt price (Fin (lastPrice * 0.95)) then ''bearish''
                     else ''neutral''),
           factors_trend = (if js_gt avg (Fin 0) then ''positive'' else ''negative''),
           factors_strength = (if js_gt (js_abs avg) (Fin 0.02) then ''strong'' else ''weak'') \<rparr>)"

function pred_loop ::
  "real \<Rightarrow> jsnum \<Rightarrow> (nat \<Rightarrow> real) \<Rightarrow> nat \<Rightarrow> jsnum \<Rightarrow> prediction list" where
  "pred_loop lastPrice avg rnd i price =
     (if i \<le> 30
      then let price' = pred_price avg rnd i price
           in make_prediction lastPrice avg i price'
                # pred_loop lastPrice avg rnd (Suc i) price'
      else [])"
  by pat_completeness auto
termination
  by (relation "measure (\<lambda>(lastPrice, avg, rnd, i, price). 31 - i)") auto

declare pred_loop.simps [simp del]

definition generateFuturePredictions ::
  "string \<Rightarrow> real \<Rightarrow> price_point list \<Rightarrow> (nat \<Rightarrow> real) \<Rightarrow> prediction list" where
  "generateFuturePredictions symbol currentPrice historicalData rnd =
     pred_loop currentPrice (avgChange historicalData) rnd 1 (Fin currentPrice)"

text \<open>The running predicted price after \<open>n\<close> steps.\<close>

primrec pred_price_after :: "real \<Rightarrow> jsnum \<Rightarrow> (nat \<Rightarrow> real) \<Rightarrow> nat \<Rightarrow> jsnum" where
  "pred_price_after currentPrice avg rnd 0 = Fin currentPrice"
| "pred_price_after currentPrice avg rnd (Suc n) =
     pred_price avg rnd (Suc n) (pred_price_after currentPrice avg rnd n)"

text \<open>The prediction the loop pushes at step \<open>i\<close>.\<close>

definition prediction_of_step :: "real \<Rightarrow> jsnum \<Rightarrow> (nat \<Rightarrow> real) \<Rightarrow> nat \<Rightarrow> prediction" where
  "prediction_of_step currentPrice avg rnd i =
     make_prediction currentPrice avg i (pred_price_after currentPrice avg rnd i)"

section \<open>Auxiliary notions\<close>

text \<open>
  What the statements below need beyond the code: names for intermediate values of the
  loops, the two formulas of the specification that are compared with the code, and an
  example history. First the change that pass \<open>i\<close> of the loop of \<^verbatim>\<open>calculateRSI\<close>
  reads, and the test \<^verbatim>\<open>x <= y\<close> on numbers.
\<close>

definition change_at :: "real list \<Rightarrow> nat \<Rightarrow> real" where
  "change_at prices i = prices ! (length prices - i) - prices ! (length prices - i - 1)"

fun js_le :: "jsnum \<Rightarrow> jsnum \<Rightarrow> bool" where
  "js_le (Fin a) (Fin b) = (a \<le> b)"
| "js_le NaN y = False"
| "js_le x NaN = False"
| "js_le NegInf y = True"
| "js_le x PosInf = True"
| "js_le x NegInf = False"
| "js_le PosInf y = False"

text \<open>The value \<^verbatim>\<open>calculateRSI\<close> returns for period 14, from the two accumulators.\<close>

definition rsi_value :: "real \<Rightarrow> real \<Rightarrow> jsnum" where
  "rsi_value gains losses =
     js_sub (Fin 100) (js_div (Fin 100) (js_add (Fin 1) (js_div (Fin (gains / 14)) (Fin (losses / 14)))))"

text \<open>
  The exponential moving average as the specification words it: the seed is the mean of
  the first \<open>period\<close> values, and the recurrence
  \<open>ema \<leftarrow> (price - ema) * (2 / (period + 1)) + ema\<close> is applied to each subsequent value.
\<close>

fun ema_recurrence :: "real \<Rightarrow> real \<Rightarrow> real list \<Rightarrow> real" where
  "ema_recurrence k ema [] = ema"
| "ema_recurrence k ema (price # rest) = ema_recurrence k ((price - ema) * k + ema) rest"

definition spec_EMA :: "real list \<Rightarrow> nat \<Rightarrow> real option" where
  "spec_EMA prices period =
     (if length prices < period then None
      else Some (ema_recurrence (2 / (real period + 1))
                   (sum_list (take period prices) / real period)
                   (drop period prices)))"

text \<open>
  The daily update as the specification words it: add the trend increment, scale the
  result by \<open>1 + noise\<close>, scale that by \<open>1 + A sin (2 pi i / 365)\<close>, clamp at the floor.
\<close>

definition spec_next_price :: "string \<Rightarrow> real \<Rightarrow> (nat \<Rightarrow> real) \<Rightarrow> nat \<Rightarrow> real \<Rightarrow> real" where
  "spec_next_price symbol currentPrice rnd i price =
     (let trend = (currentPrice - basePrice symbol currentPrice) / 1095;
          noise = (rnd (5 * i) - 0.5) * 0.05;
          A = 0.1;
          with_trend = price + trend;
          with_noise = with_trend * (1 + noise);
          with_season = with_noise * (1 + A * sin (2 * pi * real i / 365))
      in max with_season (basePrice symbol currentPrice * 0.1))"

text \<open>
  The fractional change of step \<open>i\<close> and the running predicted price after \<open>n\<close> steps
  when the average return is the finite number \<open>a\<close>.
\<close>

definition total_change :: "real \<Rightarrow> (nat \<Rightarrow> real) \<Rightarrow> nat \<Rightarrow> real" where
  "total_change a rnd i =
     a * 0.3 + sin ((real i / 30) * 2 * pi) * 0.02 + (rnd (i - 1) - 0.5) * 0.03
       + - 0.0001 * real i"

primrec finite_price_after :: "real \<Rightarrow> real \<Rightarrow> (nat \<Rightarrow> real) \<Rightarrow> nat \<Rightarrow> real" where
  "finite_price_after currentPrice a rnd 0 = currentPrice"
| "finite_price_after currentPrice a rnd (Suc n) =
     finite_price_after currentPrice a rnd n * (1 + total_change a rnd (Suc n))"

text \<open>
  An input for the examples: a point with the given close and nothing else of note, and
  a history of 1095 points whose close stays at 200000 for 1065 days and then falls by
  2.5 percent a day, rounded to two decimals as the closes of the generator are.
\<close>

definition point_with_close :: "real \<Rightarrow> price_point" where
  "point_with_close x =
     \<lparr> open_price = x, high = x, low = x, close = x, volume = 0, priceInr = x * 83,
       indicators = \<lparr> sma20 = None, sma50 = None, sma200 = None, rsi = None, macd = None,
                      bollinger = \<lparr> upper = None, lower = None \<rparr> \<rparr>,
       signals = \<lparr> trend = ''neutral'', rsi_signal = ''neutral'', macd_signal = ''neutral'' \<rparr> \<rparr>"

definition falling_close :: "nat \<Rightarrow> real" where
  "falling_close k = toFixed 2 (200000 * 0.975 ^ (k - 1065))"

definition falling_history :: "price_point list" where
  "falling_history = map (\<lambda>k. point_with_close (falling_close k)) [0..<1095]"

section \<open>The loops, point by point\<close>

lemma prices_after_Suc:
  "prices_after s c rnd (Suc n) = prices_after s c rnd n @ [price_after s c rnd (Suc n)]"
  by (simp add: prices_after_def)

lemma length_prices_after: "length (prices_after s c rnd n) = n"
  by (simp add: prices_after_def)

lemma nth_prices_after:
  "k < n \<Longrightarrow> prices_after s c rnd n ! k = price_after s c rnd (Suc k)"
  by (simp add: prices_after_def)

lemma hist_loop_points:
  "price = price_after s c rnd i \<Longrightarrow> prices = prices_after s c rnd i \<Longrightarrow>
   hist_loop s c rnd i price prices = map (point_of_day s c rnd) [i..<1095]"
proof (induction s c rnd i price prices rule: hist_loop.induct)
  case (1 symbol currentPrice rnd i price prices)
  show ?case
  proof (cases "i < 1095")
    case True
    have step: "hist_loop symbol currentPrice rnd (Suc i)
            (price_after symbol currentPrice rnd (Suc i))
            (prices_after symbol currentPrice rnd (Suc i))
          = map (point_of_day symbol currentPrice rnd) [Suc i..<1095]"
      using "1.IH" [OF True refl refl] "1.prems"
      by (simp add: prices_after_Suc)
    have "hist_loop symbol currentPrice rnd i price prices
          = point_of_day symbol currentPrice rnd i
              # hist_loop symbol currentPrice rnd (Suc i)
                  (price_after symbol currentPrice rnd (Suc i))
                  (prices_after symbol currentPrice rnd (Suc i))"
      using True "1.prems"
      by (subst hist_loop.simps) (simp add: point_of_day_def prices_after_Suc Let_def)
    with step True show ?thesis
      by (simp add: upt_conv_Cons)
  next
    case False
    then show ?thesis by (subst hist_loop.simps) simp
  qed
qed

lemma generate_points:
  "generate3YearHistoricalData s c rnd = map (point_of_day s c rnd) [0..<1095]"
  unfolding generate3YearHistoricalData_def
  by (rule hist_loop_points) (simp_all add: prices_after_def)

lemma generate_length: "length (generate3YearHistoricalData s c rnd) = 1095"
  by (simp add: generate_points)

lemma generate_nth:
  "i < 1095 \<Longrightarrow> generate3YearHistoricalData s c rnd ! i = point_of_day s c rnd i"
  by (simp add: generate_points)

lemma pred_loop_points:
  "0 < i \<Longrightarrow> price = pred_price_after c avg rnd (i - 1) \<Longrightarrow>
   pred_loop c avg rnd i price = map (prediction_of_step c avg rnd) [i..<31]"
proof (induction c avg rnd i price rule: pred_loop.induct)
  case (1 lastPrice avg rnd i price)
  show ?case
  proof (cases "i \<le> 30")
    case True
    from "1.prems" obtain k where k: "i = Suc k" by (cases i) auto
    have next_eq: "pred_price avg rnd i price = pred_price_after lastPrice avg rnd i"
      using "1.prems" k by simp
    have step: "pred_loop lastPrice avg rnd (Suc i) (pred_price_after lastPrice avg rnd i)
          = map (prediction_of_step lastPrice avg rnd) [Suc i..<31]"
      using "1.IH" [OF True refl] next_eq by simp
    have "pred_loop lastPrice avg rnd i price
          = prediction_of_step lastPrice avg rnd i
              # pred_loop lastPrice avg rnd (Suc i) (pred_price_after lastPrice avg rnd i)"
      using True next_eq
      by (subst pred_loop.simps) (simp add: prediction_of_step_def Let_def)
    with step True show ?thesis
      by (simp add: upt_conv_Cons)
  next
    case False
    then show ?thesis by (subst pred_loop.simps) simp
  qed
qed

lemma predictions_points:
  "generateFuturePredictions s c h rnd
   = map (prediction_of_step c (avgChange h) rnd) [1..<31]"
  unfolding generateFuturePredictions_def
  by (rule pred_loop_points) simp_all

lemma predictions_length: "length (generateFuturePredictions s c h rnd) = 30"
  by (simp add: predictions_points)

lemma predictions_nth:
  "i < 30 \<Longrightarrow> generateFuturePredictions s c h rnd ! i
     = prediction_of_step c (avgChange h) rnd (Suc i)"
  by (simp add: predictions_points)

section \<open>Confidence of the predictions\<close>

lemma toFixed_hundredths: "toFixed 2 (real k / 100) = real k / 100"
proof -
  have "\<lfloor>real k + 1 / 2\<rfloor> = int k" by linarith
  then show ?thesis by (simp add: toFixed_def)
qed

lemma confidence_step:
  assumes "i \<le> 45"
  shows "confidence (prediction_of_step c avg rnd i) = (95 - real i) / 100"
proof -
  have m: "max 0.5 (0.95 - (real i * 0.01)) = real (95 - i) / 100"
    using assms by (simp add: max_def field_simps of_nat_diff)
  have "confidence (prediction_of_step c avg rnd i)
          = toFixed 2 (max 0.5 (0.95 - (real i * 0.01)))"
    by (simp add: prediction_of_step_def make_prediction_def Let_def)
  also have "\<dots> = toFixed 2 (real (95 - i) / 100)" by (simp only: m)
  also have "\<dots> = real (95 - i) / 100" by (rule toFixed_hundredths)
  finally show ?thesis using assms by (simp add: of_nat_diff)
qed

lemma confidence_nth:
  "k < 30 \<Longrightarrow>
   confidence (generateFuturePredictions s c h rnd ! k) = (95 - real (Suc k)) / 100"
  by (simp only: predictions_nth) (rule confidence_step, simp)

text \<open>
  Claim C3, as the code has it. The confidence of step \<open>i\<close> (1-indexed; the list index is
  \<open>i - 1\<close>) is \<open>max(0.5, 0.95 - 0.01 i)\<close>, which the rounding to two decimals leaves alone.
  Over the 30 steps the maximum never takes its first argument: the confidence is
  \<open>0.95 - 0.01 i\<close>, the first is 0.94 and the last is 0.65, not 0.5.
\<close>

theorem confidence_linear_decay:
  assumes "i < 30"
  shows "confidence (generateFuturePredictions s c h rnd ! i)
           = max 0.5 (0.95 - 0.01 * real (Suc i))
       \<and> confidence (generateFuturePredictions s c h rnd ! i) = 0.95 - 0.01 * real (Suc i)
       \<and> confidence (generateFuturePredictions s c h rnd ! 0) = 0.94
       \<and> confidence (generateFuturePredictions s c h rnd ! 29) = 0.65"
proof -
  have lin: "(95 - real (Suc i)) / 100 = 0.95 - 0.01 * real (Suc i)"
    by (simp add: field_simps)
  have "real (Suc i) \<le> 30"
    using assms by simp
  then have "0.5 \<le> 0.95 - 0.01 * real (Suc i)"
    by (simp add: field_simps)
  then have mx: "max 0.5 (0.95 - 0.01 * real (Suc i)) = 0.95 - 0.01 * real (Suc i)"
    by (rule max_absorb2)
  have 1: "confidence (generateFuturePredictions s c h rnd ! i) = 0.95 - 0.01 * real (Suc i)"
    using confidence_nth [OF assms] lin by (simp only:)
  have 2: "confidence (generateFuturePredictions s c h rnd ! 0) = 0.94"
    using confidence_nth [of 0] by simp
  have 3: "confidence (generateFuturePredictions s c h rnd ! 29) = 0.65"
    using confidence_nth [of 29] by simp
  show ?thesis
    using 1 2 3 mx by (simp only: simp_thms)
qed

text \<open>The theorem at step 15 of a run on a generated bitcoin series.\<close>

theorem confidence_linear_decay_witness:
  "confidence (generateFuturePredictions ''bitcoin'' 65000
       (generate3YearHistoricalData ''bitcoin'' 65000 (\<lambda>k. 1 / 2)) (\<lambda>k. 1 / 2) ! 14) = 0.8"
  using confidence_linear_decay [of 14 "''bitcoin''" 65000
       "generate3YearHistoricalData ''bitcoin'' 65000 (\<lambda>k. 1 / 2)" "\<lambda>k. 1 / 2"]
  by simp

text \<open>
  Claim C3 as stated fails: in the scenario of the specification the 30th confidence is
  not 0.5.
\<close>

theorem last_confidence_counterexample:
  "confidence (generateFuturePredictions ''bitcoin'' 65000
       (generate3YearHistoricalData ''bitcoin'' 65000 (\<lambda>k. 1 / 2)) (\<lambda>k. 1 / 2) ! 29) \<noteq> 0.5"
proof -
  have "confidence (generateFuturePredictions ''bitcoin'' 65000
       (generate3YearHistoricalData ''bitcoin'' 65000 (\<lambda>k. 1 / 2)) (\<lambda>k. 1 / 2) ! 29)
     = (95 - real (Suc 29)) / 100"
    by (rule confidence_nth) simp
  then show ?thesis by simp
qed

text \<open>
  Claim C8. Over the 30 steps of a run the confidence is strictly decreasing in the
  step index, whatever the history and the random draws.
\<close>

theorem confidence_strictly_decreasing:
  assumes "i < j" and "j < 30"
  shows "confidence (generateFuturePredictions s c h rnd ! j)
       < confidence (generateFuturePredictions s c h rnd ! i)"
proof -
  from assms have "i < 30" by simp
  with assms show ?thesis by (simp add: confidence_nth)
qed

theorem confidence_strictly_decreasing_witness:
  "confidence (generateFuturePredictions ''bitcoin'' 65000
       (generate3YearHistoricalData ''bitcoin'' 65000 (\<lambda>k. 1 / 2)) (\<lambda>k. 1 / 2) ! 29)
   < confidence (generateFuturePredictions ''bitcoin'' 65000
       (generate3YearHistoricalData ''bitcoin'' 65000 (\<lambda>k. 1 / 2)) (\<lambda>k. 1 / 2) ! 28)"
  using confidence_strictly_decreasing [of 28 29 "''bitcoin''" 65000
       "generate3YearHistoricalData ''bitcoin'' 65000 (\<lambda>k. 1 / 2)" "\<lambda>k. 1 / 2"]
  by simp

section \<open>The relative strength index\<close>

lemma rsi_step_eq:
  "rsi_step prices i acc =
     (if change_at prices i > 0 then (fst acc + change_at prices i, snd acc)
      else (fst acc, snd acc - change_at prices i))"
  by (simp add: rsi_step_def change_at_def Let_def)

lemma rsi_fold_mono:
  "fst acc \<le> fst (fold (rsi_step prices) is acc) \<and> snd acc \<le> snd (fold (rsi_step prices) is acc)"
proof (induction "is" arbitrary: acc)
  case Nil
  show ?case by simp
next
  case (Cons i "is")
  have "fst acc \<le> fst (rsi_step prices i acc) \<and> snd acc \<le> snd (rsi_step prices i acc)"
    by (simp add: rsi_step_eq)
  with Cons [of "rsi_step prices i acc"] show ?case by force
qed

lemma rsi_fold_no_gain:
  "\<forall>i\<in>set is. change_at prices i \<le> 0 \<Longrightarrow> fst (fold (rsi_step prices) is acc) = fst acc"
  by (induction "is" arbitrary: acc) (simp_all add: rsi_step_eq)

lemma rsi_fold_no_loss:
  "\<forall>i\<in>set is. 0 \<le> change_at prices i \<Longrightarrow> snd (fold (rsi_step prices) is acc) = snd acc"
proof (induction "is" arbitrary: acc)
  case Nil
  show ?case by simp
next
  case (Cons i "is")
  then have "0 \<le> change_at prices i" by simp
  then have "snd (rsi_step prices i acc) = snd acc"
    by (cases "change_at prices i = 0") (simp_all add: rsi_step_eq)
  with Cons show ?case by simp
qed

lemma rsi_fold_some_gain:
  assumes "i \<in> set is" and "0 < change_at prices i"
  shows "fst acc < fst (fold (rsi_step prices) is acc)"
  using assms
proof (induction "is" arbitrary: acc)
  case Nil
  then show ?case by simp
next
  case (Cons j "is")
  show ?case
  proof (cases "j = i")
    case True
    then have "fst acc < fst (rsi_step prices j acc)"
      using Cons.prems by (simp add: rsi_step_eq)
    also have "\<dots> \<le> fst (fold (rsi_step prices) is (rsi_step prices j acc))"
      using rsi_fold_mono by blast
    finally show ?thesis by simp
  next
    case False
    with Cons.prems have "i \<in> set is" by simp
    then have "fst (rsi_step prices j acc) < fst (fold (rsi_step prices) is (rsi_step prices j acc))"
      using Cons.IH Cons.prems by blast
    moreover have "fst acc \<le> fst (rsi_step prices j acc)"
      by (simp add: rsi_step_eq)
    ultimately show ?thesis by simp
  qed
qed

lemma rsi_fold_some_loss:
  assumes "i \<in> set is" and "change_at prices i < 0"
  shows "snd acc < snd (fold (rsi_step prices) is acc)"
  using assms
proof (induction "is" arbitrary: acc)
  case Nil
  then show ?case by simp
next
  case (Cons j "is")
  show ?case
  proof (cases "j = i")
    case True
    then have "snd acc < snd (rsi_step prices j acc)"
      using Cons.prems by (simp add: rsi_step_eq)
    also have "\<dots> \<le> snd (fold (rsi_step prices) is (rsi_step prices j acc))"
      using rsi_fold_mono by blast
    finally show ?thesis by simp
  next
    case False
    with Cons.prems have "i \<in> set is" by simp
    then have "snd (rsi_step prices j acc) < snd (fold (rsi_step prices) is (rsi_step prices j acc))"
      using Cons.IH Cons.prems by blast
    moreover have "snd acc \<le> snd (rsi_step prices j acc)"
      by (simp add: rsi_step_eq)
    ultimately show ?thesis by simp
  qed
qed

lemma calculateRSI_14:
  "calculateRSI prices 14 =
     (if length prices < 15 then None
      else Some (rsi_value (fst (fold (rsi_step prices) [1..<15] (0, 0)))
                           (snd (fold (rsi_step prices) [1..<15] (0, 0)))))"
  by (simp add: calculateRSI_def rsi_value_def Let_def)

lemma rsi_value_no_loss_gain: "0 < g \<Longrightarrow> rsi_value g 0 = Fin 100"
  by (simp add: rsi_value_def js_sub_def js_inf_def)

lemma rsi_value_flat: "rsi_value 0 0 = NaN"
  by (simp add: rsi_value_def js_sub_def)

lemma rsi_value_no_gain: "0 < l \<Longrightarrow> rsi_value 0 l = Fin 0"
  by (simp add: rsi_value_def js_sub_def)

lemma rsi_value_bounds:
  assumes "0 \<le> g" and "0 < l"
  shows "\<exists>v. rsi_value g l = Fin v \<and> 0 \<le> v \<and> v < 100"
proof -
  define x where "x = g / l"
  have "0 \<le> x" using assms by (simp add: x_def)
  then have "100 / (1 + x) \<le> 100" and "0 < 100 / (1 + x)"
    by (simp_all add: field_simps)
  moreover have "1 + g / l \<noteq> 0"
    using \<open>0 \<le> x\<close> by (simp add: x_def add_nonneg_eq_0_iff)
  then have "rsi_value g l = Fin (100 - 100 / (1 + x))"
    using assms by (simp add: rsi_value_def js_sub_def x_def)
  ultimately show ?thesis by simp
qed

lemma change_at_window:
  assumes "15 \<le> length prices" and "i \<in> set [1..<15]"
  shows "change_at prices i = prices ! Suc (length prices - i - 1) - prices ! (length prices - i - 1)"
    and "length prices - 15 \<le> length prices - i - 1"
    and "length prices - i - 1 < length prices - 1"
proof -
  from assms have i: "1 \<le> i" "i < 15" by simp_all
  with assms(1) have "Suc (length prices - i - 1) = length prices - i" by simp
  then show "change_at prices i = prices ! Suc (length prices - i - 1) - prices ! (length prices - i - 1)"
    by (simp add: change_at_def)
  show "length prices - 15 \<le> length prices - i - 1" using i assms(1) by simp
  show "length prices - i - 1 < length prices - 1" using i assms(1) by simp
qed

lemma window_change_at:
  assumes "15 \<le> length prices" and "length prices - 15 \<le> k" and "k < length prices - 1"
  shows "length prices - k - 1 \<in> set [1..<15]"
    and "change_at prices (length prices - k - 1) = prices ! Suc k - prices ! k"
proof -
  from assms show "length prices - k - 1 \<in> set [1..<15]" by auto
  from assms have "length prices - (length prices - k - 1) = Suc k"
    and "length prices - (length prices - k - 1) - 1 = k" by simp_all
  then show "change_at prices (length prices - k - 1) = prices ! Suc k - prices ! k"
    by (simp add: change_at_def)
qed

lemma rsi_accumulators_nonneg:
  "0 \<le> fst (fold (rsi_step prices) is (0, 0)) \<and> 0 \<le> snd (fold (rsi_step prices) is (0, 0))"
  using rsi_fold_mono [of "(0, 0)" prices "is"] by simp

lemma calculateRSI_range:
  assumes "calculateRSI prices 14 = Some v"
  shows "v = NaN \<or> (\<exists>x. v = Fin x \<and> 0 \<le> x \<and> x \<le> 100)"
proof -
  define g where "g = fst (fold (rsi_step prices) [1..<15] (0, 0))"
  define l where "l = snd (fold (rsi_step prices) [1..<15] (0, 0))"
  have nn: "0 \<le> g" "0 \<le> l"
    using rsi_accumulators_nonneg [of prices "[1..<15]"] by (simp_all add: g_def l_def)
  from assms have v: "v = rsi_value g l"
    by (simp add: calculateRSI_14 g_def l_def split: if_splits)
  show ?thesis
  proof (cases "0 < l")
    case True
    with nn rsi_value_bounds [of g l] v show ?thesis by auto
  next
    case False
    with nn have l0: "l = 0" by simp
    show ?thesis
    proof (cases "0 < g")
      case True
      with l0 v show ?thesis by (simp add: rsi_value_no_loss_gain)
    next
      case False
      with nn have "g = 0" by simp
      with l0 v show ?thesis by (simp add: rsi_value_flat)
    qed
  qed
qed

text \<open>
  Claim C10. On at least 15 prices whose trailing 14 changes are all non-negative, the
  average loss is zero, so \<^verbatim>\<open>avgGain / avgLoss\<close> divides by zero. If one of the changes
  is strictly positive the quotient is \<^verbatim>\<open>Infinity\<close> and the function returns exactly 100;
  if all changes are zero the quotient is \<^verbatim>\<open>0 / 0\<close> and the function returns
  \<^verbatim>\<open>NaN\<close>.
\<close>

theorem calculateRSI_division_by_zero:
  assumes "15 \<le> length prices"
    and "\<forall>k. length prices - 15 \<le> k \<and> k < length prices - 1 \<longrightarrow> prices ! k \<le> prices ! Suc k"
  shows "snd (fold (rsi_step prices) [1..<15] (0, 0)) / 14 = 0
    \<and> ((\<exists>k. length prices - 15 \<le> k \<and> k < length prices - 1 \<and> prices ! k < prices ! Suc k)
         \<longrightarrow> js_div (Fin (fst (fold (rsi_step prices) [1..<15] (0, 0)) / 14))
                    (Fin (snd (fold (rsi_step prices) [1..<15] (0, 0)) / 14)) = PosInf
           \<and> calculateRSI prices 14 = Some (Fin 100))
    \<and> ((\<forall>k. length prices - 15 \<le> k \<and> k < length prices - 1 \<longrightarrow> prices ! k = prices ! Suc k)
         \<longrightarrow> calculateRSI prices 14 = Some NaN)"
proof -
  define g where "g = fst (fold (rsi_step prices) [1..<15] (0, 0))"
  define l where "l = snd (fold (rsi_step prices) [1..<15] (0, 0))"
  have rsi: "calculateRSI prices 14 = Some (rsi_value g l)"
    using assms(1) by (simp add: calculateRSI_14 g_def l_def)
  have "\<forall>i\<in>set [1..<15]. 0 \<le> change_at prices i"
  proof
    fix i assume i: "i \<in> set [1..<15]"
    from assms(2) change_at_window(2,3) [OF assms(1) i]
    have "prices ! (length prices - i - 1) \<le> prices ! Suc (length prices - i - 1)"
      by blast
    then show "0 \<le> change_at prices i"
      by (simp only: change_at_window(1) [OF assms(1) i] diff_ge_0_iff_ge)
  qed
  then have l0: "l = 0"
    unfolding l_def by (simp add: rsi_fold_no_loss)
  have gain: "js_div (Fin (g / 14)) (Fin (l / 14)) = PosInf \<and> calculateRSI prices 14 = Some (Fin 100)"
    if "length prices - 15 \<le> k" and "k < length prices - 1" and "prices ! k < prices ! Suc k" for k
  proof -
    have m: "length prices - k - 1 \<in> set [1..<15]"
      by (rule window_change_at(1) [OF assms(1) that(1,2)])
    have "0 < change_at prices (length prices - k - 1)"
      using that(3) by (simp only: window_change_at(2) [OF assms(1) that(1,2)] diff_gt_0_iff_gt)
    with m have "fst (0::real, 0::real) < fst (fold (rsi_step prices) [1..<15] (0, 0))"
      by (rule rsi_fold_some_gain)
    then have "0 < g"
      by (simp add: g_def)
    with l0 rsi show ?thesis by (simp add: rsi_value_no_loss_gain js_inf_def)
  qed
  have flat: "calculateRSI prices 14 = Some NaN"
    if "\<forall>k. length prices - 15 \<le> k \<and> k < length prices - 1 \<longrightarrow> prices ! k = prices ! Suc k"
  proof -
    have "\<forall>i\<in>set [1..<15]. change_at prices i \<le> 0"
    proof
      fix i assume i: "i \<in> set [1..<15]"
      from that change_at_window(2,3) [OF assms(1) i]
      have "prices ! (length prices - i - 1) = prices ! Suc (length prices - i - 1)"
        by blast
      then show "change_at prices i \<le> 0"
        by (simp only: change_at_window(1) [OF assms(1) i] diff_self order_refl)
    qed
    then have "g = 0"
      unfolding g_def by (simp add: rsi_fold_no_gain)
    with l0 rsi show ?thesis by (simp add: rsi_value_flat)
  qed
  have A: "l / 14 = 0" using l0 by simp
  have B: "(\<exists>k. length prices - 15 \<le> k \<and> k < length prices - 1 \<and> prices ! k < prices ! Suc k)
         \<longrightarrow> js_div (Fin (g / 14)) (Fin (l / 14)) = PosInf
           \<and> calculateRSI prices 14 = Some (Fin 100)"
    using gain by blast
  have C: "(\<forall>k. length prices - 15 \<le> k \<and> k < length prices - 1 \<longrightarrow> prices ! k = prices ! Suc k)
         \<longrightarrow> calculateRSI prices 14 = Some NaN"
    using flat by (rule impI)
  from A B C show ?thesis
    unfolding g_def l_def by (intro conjI)
qed

lemma calculateRSI_flat:
  assumes "15 \<le> n"
  shows "calculateRSI (replicate n p) 14 = Some NaN"
proof -
  have z: "\<forall>i\<in>set [1..<15]. change_at (replicate n p) i = 0"
    using assms by (auto simp: change_at_def)
  then have "fst (fold (rsi_step (replicate n p)) [1..<15] (0, 0)) = 0"
    and "snd (fold (rsi_step (replicate n p)) [1..<15] (0, 0)) = 0"
    by (simp_all add: rsi_fold_no_gain rsi_fold_no_loss)
  with assms show ?thesis
    by (simp add: calculateRSI_14 rsi_value_flat)
qed

text \<open>The theorem on fifteen rising prices and on fifteen equal prices.\<close>

theorem calculateRSI_division_by_zero_witness:
  "calculateRSI (map real [1..<16]) 14 = Some (Fin 100)
   \<and> calculateRSI (replicate 15 100) 14 = Some NaN"
proof -
  have up: "\<forall>k. length (map real [1..<16]) - 15 \<le> k \<and> k < length (map real [1..<16]) - 1
          \<longrightarrow> map real [1..<16] ! k \<le> map real [1..<16] ! Suc k"
    by simp
  have "length (map real [1..<16]) - 15 \<le> 0 \<and> 0 < length (map real [1..<16]) - 1
          \<and> map real [1..<16] ! 0 < map real [1..<16] ! Suc 0"
    by simp
  then have ex: "\<exists>k. length (map real [1..<16]) - 15 \<le> k \<and> k < length (map real [1..<16]) - 1
          \<and> map real [1..<16] ! k < map real [1..<16] ! Suc k"
    by (rule exI)
  have 1: "calculateRSI (map real [1..<16]) 14 = Some (Fin 100)"
    using calculateRSI_division_by_zero [of "map real [1..<16]", OF _ up] ex by simp
  have fl: "\<forall>k. length (replicate 15 (100::real)) - 15 \<le> k \<and> k < length (replicate 15 (100::real)) - 1
          \<longrightarrow> replicate 15 (100::real) ! k \<le> replicate 15 100 ! Suc k"
    by simp
  have fe: "\<forall>k. length (replicate 15 (100::real)) - 15 \<le> k \<and> k < length (replicate 15 (100::real)) - 1
          \<longrightarrow> replicate 15 (100::real) ! k = replicate 15 100 ! Suc k"
    by simp
  have 2: "calculateRSI (replicate 15 100) 14 = Some NaN"
    using calculateRSI_division_by_zero [of "replicate 15 100", OF _ fl] fe by simp
  from 1 2 show ?thesis by simp
qed

text \<open>
  Claim C7 at its failing input: on fifteen equal prices \<^verbatim>\<open>calculateRSI\<close> returns a value
  that is not \<^verbatim>\<open>null\<close> and for which \<^verbatim>\<open>0 <= rsi && rsi <= 100\<close> is false.
\<close>

theorem calculateRSI_flat_not_in_range:
  "calculateRSI (replicate 15 100) 14 = Some NaN
   \<and> \<not> (js_le (Fin 0) NaN \<and> js_le NaN (Fin 100))"
  by (simp add: calculateRSI_flat)

section \<open>The exponential moving average\<close>

lemma foldl_plus_sum_list: "foldl (+) a xs = a + sum_list (xs :: real list)"
  by (induction xs arbitrary: a) simp_all

lemma ema_recurrence_fold:
  "ema_recurrence k ema ps = fold (\<lambda>p e. (p - e) * k + e) ps ema"
  by (induction ps arbitrary: ema) simp_all

lemma fold_index_drop:
  "n \<le> length xs \<Longrightarrow> fold (\<lambda>i. f (xs ! i)) [n..<length xs] a = fold f (drop n xs) a"
proof (induction "length xs - n" arbitrary: n a)
  case 0
  then show ?case by simp
next
  case (Suc d)
  then have lt: "n < length xs" by simp
  then have d: "drop n xs = xs ! n # drop (Suc n) xs"
    by (simp add: Cons_nth_drop_Suc)
  have u: "[n..<length xs] = n # [Suc n..<length xs]"
    using lt by (simp add: upt_conv_Cons)
  have "d = length xs - Suc n" using Suc.hyps(2) by simp
  then have "fold (\<lambda>i. f (xs ! i)) [Suc n..<length xs] (f (xs ! n) a)
           = fold f (drop (Suc n) xs) (f (xs ! n) a)"
    using Suc.hyps(1) lt by simp
  then show ?case by (simp add: d u)
qed

lemma calculateEMA_spec:
  "calculateEMA prices period = spec_EMA prices period"
proof (cases "length prices < period")
  case True
  then show ?thesis by (simp add: calculateEMA_def spec_EMA_def)
next
  case False
  then have le: "period \<le> length prices" by simp
  have "fold (\<lambda>i ema. (prices ! i - ema) * (2 / (real period + 1)) + ema)
            [period..<length prices] a
        = fold (\<lambda>p e. (p - e) * (2 / (real period + 1)) + e) (drop period prices) a" for a
    using fold_index_drop [OF le, of "\<lambda>p e. (p - e) * (2 / (real period + 1)) + e" a] by simp
  with False show ?thesis
    by (simp add: calculateEMA_def spec_EMA_def Let_def ema_recurrence_fold foldl_plus_sum_list)
qed

lemma ema_recurrence_pos:
  assumes "0 < k" and "k \<le> 1" and "0 < ema" and "\<forall>p\<in>set ps. 0 < p"
  shows "0 < ema_recurrence k ema ps"
  using assms(3,4)
proof (induction ps arbitrary: ema)
  case Nil
  then show ?case by simp
next
  case (Cons p ps)
  have "(p - ema) * k + ema = p * k + ema * (1 - k)" by (simp add: algebra_simps)
  moreover have "0 < p * k" using Cons.prems assms(1) by simp
  moreover have "0 \<le> ema * (1 - k)" using Cons.prems assms(2) by simp
  ultimately have "0 < (p - ema) * k + ema" by linarith
  with Cons show ?case by simp
qed

lemma sum_list_pos_real:
  assumes "xs \<noteq> []" and "\<forall>x\<in>set xs. 0 < (x::real)"
  shows "0 < sum_list xs"
proof (cases xs)
  case Nil
  with assms(1) show ?thesis by simp
next
  case (Cons x ys)
  with assms(2) have "0 < x" and "\<forall>y\<in>set ys. 0 \<le> y"
    by (auto intro: less_imp_le)
  then have "0 < x + sum_list ys"
    by (intro add_pos_nonneg sum_list_nonneg) auto
  with Cons show ?thesis by simp
qed

lemma spec_EMA_pos:
  assumes "0 < period" and "period \<le> length prices" and "\<forall>p\<in>set prices. 0 < p"
  shows "\<exists>e. spec_EMA prices period = Some e \<and> 0 < e"
proof -
  have ne: "take period prices \<noteq> []" using assms(1,2) by auto
  have tk: "\<forall>p\<in>set (take period prices). 0 < p"
    using assms(3) by (meson in_set_takeD)
  with ne have "0 < sum_list (take period prices)"
    by (rule sum_list_pos_real)
  then have seed: "0 < sum_list (take period prices) / real period"
    using assms(1) by simp
  have dr: "\<forall>p\<in>set (drop period prices). 0 < p"
    using assms(3) by (meson in_set_dropD)
  have k: "0 < 2 / (real period + 1)" "2 / (real period + 1) \<le> 1"
    using assms(1) by simp_all
  from ema_recurrence_pos [OF k seed dr] assms(2) show ?thesis
    by (simp add: spec_EMA_def)
qed

text \<open>
  Claim C9. For a positive period, \<^verbatim>\<open>calculateEMA\<close> is the average of the specification:
  \<^verbatim>\<open>null\<close> below \<open>period\<close> observations, otherwise the mean of the first \<open>period\<close>
  values run through the recurrence over each later value. \<^verbatim>\<open>calculateMACD\<close> is
  \<^verbatim>\<open>null\<close> when one of the two averages is undefined, and on at least 26 prices, all
  positive as closing prices are, it is the average of period 12 minus that of period 26.
\<close>

theorem calculateEMA_calculateMACD:
  assumes "0 < period"
  shows "calculateEMA prices period = spec_EMA prices period
    \<and> (length prices < period \<longrightarrow> calculateEMA prices period = None)
    \<and> (calculateEMA prices 12 = None \<or> calculateEMA prices 26 = None
         \<longrightarrow> calculateMACD prices = None)
    \<and> (26 \<le> length prices \<and> (\<forall>p\<in>set prices. 0 < p)
         \<longrightarrow> (\<exists>ema12 ema26. calculateEMA prices 12 = Some ema12
               \<and> calculateEMA prices 26 = Some ema26
               \<and> calculateMACD prices = Some (ema12 - ema26)))"
proof -
  have A: "calculateEMA prices period = spec_EMA prices period"
    by (rule calculateEMA_spec)
  have B: "length prices < period \<longrightarrow> calculateEMA prices period = None"
    by (simp add: calculateEMA_def)
  have C: "calculateEMA prices 12 = None \<or> calculateEMA prices 26 = None
         \<longrightarrow> calculateMACD prices = None"
    by (auto simp: calculateMACD_def Let_def)
  have D: "26 \<le> length prices \<and> (\<forall>p\<in>set prices. 0 < p)
         \<longrightarrow> (\<exists>ema12 ema26. calculateEMA prices 12 = Some ema12
               \<and> calculateEMA prices 26 = Some ema26
               \<and> calculateMACD prices = Some (ema12 - ema26))"
  proof
    assume h: "26 \<le> length prices \<and> (\<forall>p\<in>set prices. 0 < p)"
    then have "12 \<le> length prices" by simp
    with h spec_EMA_pos [of 12 prices] obtain e12
      where e12: "calculateEMA prices 12 = Some e12" "0 < e12"
      by (auto simp: calculateEMA_spec)
    from h spec_EMA_pos [of 26 prices] obtain e26
      where e26: "calculateEMA prices 26 = Some e26" "0 < e26"
      by (auto simp: calculateEMA_spec)
    from e12 e26 have "calculateMACD prices = Some (e12 - e26)"
      by (simp add: calculateMACD_def Let_def)
    with e12 e26 show "\<exists>ema12 ema26. calculateEMA prices 12 = Some ema12
               \<and> calculateEMA prices 26 = Some ema26
               \<and> calculateMACD prices = Some (ema12 - ema26)"
      by blast
  qed
  from A B C D show ?thesis by (intro conjI)
qed


text \<open>The theorem on three prices with period 2, on two prices, and on 26 equal prices.\<close>

theorem calculateEMA_calculateMACD_witness:
  "calculateEMA [10, 12, 14] 2 = Some 13
   \<and> calculateMACD [1, 2] = None
   \<and> (\<exists>ema12 ema26. calculateEMA (replicate 26 100) 12 = Some ema12
         \<and> calculateEMA (replicate 26 100) 26 = Some ema26
         \<and> calculateMACD (replicate 26 100) = Some (ema12 - ema26))"
proof -
  have "calculateEMA [10, 12, 14] 2 = spec_EMA [10, 12, 14] 2"
    using calculateEMA_calculateMACD [of 2 "[10, 12, 14]"] by simp
  then have 1: "calculateEMA [10, 12, 14] 2 = Some 13"
    by (simp add: spec_EMA_def)
  have 2: "calculateMACD [1, 2] = None"
    using calculateEMA_calculateMACD [of 12 "[1, 2]"] by (simp add: spec_EMA_def)
  have 3: "\<exists>ema12 ema26. calculateEMA (replicate 26 100) 12 = Some ema12
         \<and> calculateEMA (replicate 26 100) 26 = Some ema26
         \<and> calculateMACD (replicate 26 100) = Some (ema12 - ema26)"
  proof -
    have h: "26 \<le> length (replicate 26 (100::real)) \<and> (\<forall>p\<in>set (replicate 26 (100::real)). 0 < p)"
      by simp
    have "(0::nat) < 12" by simp
    from calculateEMA_calculateMACD [OF this, of "replicate 26 100"] h show ?thesis
      by blast
  qed
  from 1 2 3 show ?thesis by (intro conjI)
qed

section \<open>The historical series\<close>

lemma toFixed_mono: "x \<le> y \<Longrightarrow> toFixed d x \<le> toFixed d y"
proof -
  assume xy: "x \<le> y"
  have p: "(0::real) < 10 ^ d" by simp
  show ?thesis
  proof (cases "x < 0")
    case xneg: True
    show ?thesis
    proof (cases "y < 0")
      case True
      from xy have "(- y) * 10 ^ d + 1 / 2 \<le> (- x) * 10 ^ d + 1 / 2"
        using p by (simp add: mult_right_mono)
      then have "\<lfloor>(- y) * 10 ^ d + 1 / 2\<rfloor> \<le> \<lfloor>(- x) * 10 ^ d + 1 / 2\<rfloor>"
        by (rule floor_mono)
      then have "real_of_int \<lfloor>(- y) * 10 ^ d + 1 / 2\<rfloor> / 10 ^ d
               \<le> real_of_int \<lfloor>(- x) * 10 ^ d + 1 / 2\<rfloor> / 10 ^ d"
        using p by (simp add: divide_right_mono)
      then have "- (real_of_int \<lfloor>(- x) * 10 ^ d + 1 / 2\<rfloor> / 10 ^ d)
            \<le> - (real_of_int \<lfloor>(- y) * 10 ^ d + 1 / 2\<rfloor> / 10 ^ d)"
        by linarith
      with xneg True show ?thesis by (simp only: toFixed_def if_True)
    next
      case False
      then have "0 \<le> y * 10 ^ d" by (intro mult_nonneg_nonneg) simp_all
      then have "0 \<le> y * 10 ^ d + 1 / 2" by linarith
      then have "0 \<le> \<lfloor>y * 10 ^ d + 1 / 2\<rfloor>" by simp
      then have a: "0 \<le> real_of_int \<lfloor>y * 10 ^ d + 1 / 2\<rfloor> / 10 ^ d" by simp
      from xneg have "0 \<le> (- x) * 10 ^ d" by (intro mult_nonneg_nonneg) simp_all
      then have "0 \<le> (- x) * 10 ^ d + 1 / 2" by linarith
      then have "0 \<le> \<lfloor>(- x) * 10 ^ d + 1 / 2\<rfloor>" by simp
      then have b: "0 \<le> real_of_int \<lfloor>(- x) * 10 ^ d + 1 / 2\<rfloor> / 10 ^ d" by simp
      have "- (real_of_int \<lfloor>(- x) * 10 ^ d + 1 / 2\<rfloor> / 10 ^ d)
            \<le> real_of_int \<lfloor>y * 10 ^ d + 1 / 2\<rfloor> / 10 ^ d"
        using a b by linarith
      with xneg False show ?thesis by (simp only: toFixed_def if_True if_False)
    qed
  next
    case False
    with xy have y: "\<not> y < 0" by simp
    from xy have "x * 10 ^ d + 1 / 2 \<le> y * 10 ^ d + 1 / 2"
      using p by (simp add: mult_right_mono)
    then have "\<lfloor>x * 10 ^ d + 1 / 2\<rfloor> \<le> \<lfloor>y * 10 ^ d + 1 / 2\<rfloor>"
      by (rule floor_mono)
    then have "real_of_int \<lfloor>x * 10 ^ d + 1 / 2\<rfloor> / 10 ^ d
             \<le> real_of_int \<lfloor>y * 10 ^ d + 1 / 2\<rfloor> / 10 ^ d"
      using p by (simp add: divide_right_mono)
    with False y show ?thesis by (simp only: toFixed_def if_False)
  qed
qed

lemma toFixed_zero: "toFixed d 0 = 0"
  by (simp add: toFixed_def)

lemma toFixed_nonneg: "0 \<le> x \<Longrightarrow> 0 \<le> toFixed d x"
  using toFixed_mono [of 0 x d] by (simp add: toFixed_zero)

lemma round_error:
  "\<bar>real_of_int \<lfloor>z * 100 + 1 / 2\<rfloor> / 100 - z\<bar> \<le> 1 / 200"
proof -
  define n where "n = \<lfloor>z * 100 + 1 / 2\<rfloor>"
  have "real_of_int n \<le> z * 100 + 1 / 2" and "z * 100 + 1 / 2 < real_of_int n + 1"
    unfolding n_def by linarith+
  then have "real_of_int n / 100 - z \<le> 1 / 200" and "- (1 / 200) \<le> real_of_int n / 100 - z"
    by linarith+
  then have "\<bar>real_of_int n / 100 - z\<bar> \<le> 1 / 200"
    by (rule_tac abs_leI) linarith+
  then show ?thesis
    by (simp only: n_def)
qed

lemma toFixed_error: "\<bar>toFixed 2 x - x\<bar> \<le> 1 / 200"
proof (cases "x < 0")
  case True
  have "\<bar>real_of_int \<lfloor>(- x) * 100 + 1 / 2\<rfloor> / 100 - (- x)\<bar> \<le> 1 / 200"
    by (rule round_error)
  then have "\<bar>- (real_of_int \<lfloor>(- x) * 100 + 1 / 2\<rfloor> / 100) - x\<bar> \<le> 1 / 200"
    by linarith
  with True show ?thesis by (simp add: toFixed_def)
next
  case False
  with round_error [of x] show ?thesis by (simp add: toFixed_def)
qed

lemma basePrice_cases:
  "basePrice s c = c * 0.15 \<or> basePrice s c = c * 0.12 \<or> basePrice s c = c * 0.05
   \<or> basePrice s c = c * 0.3 \<or> basePrice s c = c * 0.2"
  by (simp add: basePrice_def basePrices_def)

lemma basePrice_bounds:
  assumes "0 < c"
  shows "c * 0.05 \<le> basePrice s c" and "basePrice s c \<le> c * 0.3"
  using basePrice_cases [of s c] assms by auto

lemma basePrice_bitcoin: "basePrice ''bitcoin'' c = c * 0.15"
  by (simp add: basePrice_def basePrices_def)

lemma basePrice_dogecoin: "basePrice ''dogecoin'' c = c * 0.3"
  by (simp add: basePrice_def basePrices_def)

lemma next_price_ge_floor: "basePrice s c * 0.1 \<le> next_price s c rnd i price"
  by (simp add: next_price_def Let_def)

lemma price_after_ge_floor: "0 < c \<Longrightarrow> basePrice s c * 0.1 \<le> price_after s c rnd n"
proof (cases n)
  case 0
  assume "0 < c"
  from basePrice_bounds(1) [OF this, of s] this have "0 \<le> basePrice s c"
    by simp
  then have "basePrice s c * 0.1 \<le> basePrice s c" by simp
  with 0 show ?thesis by simp
next
  case (Suc m)
  have "basePrice s c * 0.1 \<le> next_price s c rnd m (price_after s c rnd m)"
    by (rule next_price_ge_floor)
  with Suc show ?thesis by (simp only: price_after.simps)
qed

lemma price_after_pos: "0 < c \<Longrightarrow> 0 < price_after s c rnd n"
proof -
  assume c: "0 < c"
  from basePrice_bounds(1) [OF c, of s] c have "0 < basePrice s c * 0.1"
    by simp
  with price_after_ge_floor [OF c, of s rnd n] show ?thesis by linarith
qed

lemma point_fields:
  "close (point_of_day s c rnd i) = toFixed 2 (price_after s c rnd (Suc i))"
  "high (point_of_day s c rnd i)
     = toFixed 2 (price_after s c rnd (Suc i) * (1 + rnd (5 * i + 2) * 0.02))"
  "low (point_of_day s c rnd i)
     = toFixed 2 (price_after s c rnd (Suc i) * (1 - rnd (5 * i + 3) * 0.02))"
  "open_price (point_of_day s c rnd i)
     = toFixed 2 (price_after s c rnd (Suc i) * (1 + (rnd (5 * i + 4) - 0.5) * 0.01))"
  by (simp_all add: point_of_day_def make_point_def Let_def)

lemma price_after_1_bitcoin_low:
  "price_after ''bitcoin'' 65000 (\<lambda>k. 0) (Suc 0) = 9750 * 0.975 + 55250 / 1095"
  by (simp add: next_price_def basePrice_bitcoin Let_def)

text \<open>
  Claim C2 as stated fails on the first day of a bitcoin series at price 65000 when the
  random source returns 0: the close of the code (9556.71) is not the close of the
  sequential update of the specification (9555.45).
\<close>

theorem sequential_update_counterexample:
  "close (generate3YearHistoricalData ''bitcoin'' 65000 (\<lambda>k. 0) ! 0)
     \<noteq> toFixed 2 (spec_next_price ''bitcoin'' 65000 (\<lambda>k. 0) 0 (basePrice ''bitcoin'' 65000))"
proof -
  have "close (generate3YearHistoricalData ''bitcoin'' 65000 (\<lambda>k. 0) ! 0)
        = toFixed 2 (9750 * 0.975 + 55250 / 1095)"
    by (simp only: generate_nth point_fields price_after_1_bitcoin_low) 
  also have "\<dots> = 955671 / 100"
    by (simp add: toFixed_def)
  finally have l: "close (generate3YearHistoricalData ''bitcoin'' 65000 (\<lambda>k. 0) ! 0) = 955671 / 100" .
  have e: "spec_next_price ''bitcoin'' 65000 (\<lambda>k. 0) 0 (basePrice ''bitcoin'' 65000)
        = (9750 + 55250 / 1095) * 0.975"
    by (simp add: spec_next_price_def basePrice_bitcoin Let_def)
  have "toFixed 2 ((9750 + 55250 / 1095) * 0.975) = 955545 / 100"
    by (simp add: toFixed_def)
  then have "toFixed 2 (spec_next_price ''bitcoin'' 65000 (\<lambda>k. 0) 0 (basePrice ''bitcoin'' 65000))
        = 955545 / 100"
    by (simp only: e)
  with l show ?thesis by simp
qed

lemma noise_range:
  assumes "valid_random rnd"
  shows "- 0.025 \<le> (rnd k - 0.5) * 0.05" and "(rnd k - 0.5) * 0.05 < 0.025"
proof -
  from assms have "0 \<le> rnd k" and "rnd k < 1" by (simp_all add: valid_random_def)
  then show "- 0.025 \<le> (rnd k - 0.5) * 0.05" and "(rnd k - 0.5) * 0.05 < 0.025"
    by simp_all
qed

text \<open>
  Claim C2, as the code has it. On every day \<open>i\<close> the trend increment, the noise term
  \<open>price * noise\<close> and the seasonal term \<open>price * 0.1 * sin (2 pi i / 365)\<close> are all
  computed from the price of the day before and added to it in one step; the sum is
  clamped at the floor of a tenth of the base price, and the close of the day is that
  value rounded to two decimals. The noise lies in \<open>[-0.025, 0.025)\<close>.
\<close>

theorem daily_price_update:
  assumes "valid_random rnd" and "i < 1095"
  shows "close (generate3YearHistoricalData s c rnd ! i) = toFixed 2 (price_after s c rnd (Suc i))
    \<and> price_after s c rnd (Suc i)
        = max (price_after s c rnd i + (c - basePrice s c) / 1095
                 + price_after s c rnd i * ((rnd (5 * i) - 0.5) * 0.05)
                 + price_after s c rnd i * (sin (2 * pi * real i / 365) * 0.1))
              (basePrice s c * 0.1)
    \<and> - 0.025 \<le> (rnd (5 * i) - 0.5) * 0.05 \<and> (rnd (5 * i) - 0.5) * 0.05 < 0.025"
proof -
  have A: "close (generate3YearHistoricalData s c rnd ! i) = toFixed 2 (price_after s c rnd (Suc i))"
    using assms(2) by (simp only: generate_nth point_fields)
  have B: "price_after s c rnd (Suc i)
        = max (price_after s c rnd i + (c - basePrice s c) / 1095
                 + price_after s c rnd i * ((rnd (5 * i) - 0.5) * 0.05)
                 + price_after s c rnd i * (sin (2 * pi * real i / 365) * 0.1))
              (basePrice s c * 0.1)"
    by (simp add: next_price_def Let_def algebra_simps)
  from A B noise_range [OF assms(1), of "5 * i"] show ?thesis
    by (intro conjI)
qed

text \<open>The theorem on the first day of a bitcoin series whose draws are all 0.\<close>

theorem daily_price_update_witness:
  "close (generate3YearHistoricalData ''bitcoin'' 65000 (\<lambda>k. 0) ! 0) = 955671 / 100"
proof -
  have v: "valid_random (\<lambda>k. 0)" by (simp add: valid_random_def)
  have "close (generate3YearHistoricalData ''bitcoin'' 65000 (\<lambda>k. 0) ! 0)
        = toFixed 2 (price_after ''bitcoin'' 65000 (\<lambda>k. 0) (Suc 0))"
    using daily_price_update [OF v, of 0 "''bitcoin''" 65000] by simp
  also have "\<dots> = toFixed 2 (9750 * 0.975 + 55250 / 1095)"
    by (simp only: price_after_1_bitcoin_low)
  also have "\<dots> = 955671 / 100"
    by (simp add: toFixed_def)
  finally show ?thesis .
qed

lemma toFixed_half_cent: "toFixed 2 (1 / 200) = 1 / 100"
  by (simp add: toFixed_def)

text \<open>
  The part of the ordering of a point that the code keeps. For a supported symbol, a
  positive current price and draws in \<open>[0, 1)\<close>, every point has
  \<open>low \<le> close \<le> high\<close> and \<open>0 \<le> low\<close>, \<open>0 \<le> close\<close>; the open lies between the
  rounded values of \<open>0.995 * price\<close> and \<open>1.005 * price\<close>; and the close is strictly
  positive when the current price is at least 1.
\<close>

lemma ohlc_bounds:
  assumes "valid_random rnd" and "0 < c" and "i < 1095" and "s \<in> set SUPPORTED_COINS"
  shows "low (generate3YearHistoricalData s c rnd ! i) \<le> close (generate3YearHistoricalData s c rnd ! i)
    \<and> close (generate3YearHistoricalData s c rnd ! i) \<le> high (generate3YearHistoricalData s c rnd ! i)
    \<and> 0 \<le> low (generate3YearHistoricalData s c rnd ! i)
    \<and> 0 \<le> close (generate3YearHistoricalData s c rnd ! i)
    \<and> toFixed 2 (price_after s c rnd (Suc i) * 0.995)
          \<le> open_price (generate3YearHistoricalData s c rnd ! i)
    \<and> open_price (generate3YearHistoricalData s c rnd ! i)
          \<le> toFixed 2 (price_after s c rnd (Suc i) * 1.005)
    \<and> (1 \<le> c \<longrightarrow> 0 < close (generate3YearHistoricalData s c rnd ! i))"
proof -
  define p where "p = price_after s c rnd (Suc i)"
  define pt where "pt = generate3YearHistoricalData s c rnd ! i"
  have pt: "pt = point_of_day s c rnd i"
    using assms(3) by (simp only: pt_def generate_nth)
  have pos: "0 < p"
    unfolding p_def by (rule price_after_pos [OF assms(2)])
  have u: "0 \<le> rnd k" "rnd k < 1" for k
    using assms(1) by (simp_all add: valid_random_def)
  have cl: "close pt = toFixed 2 p"
    by (simp only: pt point_fields p_def)
  have "p * (1 - rnd (5 * i + 3) * 0.02) \<le> p * 1"
    using pos u(1) [of "5 * i + 3"] by (intro mult_left_mono) simp_all
  then have "toFixed 2 (p * (1 - rnd (5 * i + 3) * 0.02)) \<le> toFixed 2 p"
    by (intro toFixed_mono) simp
  then have A: "low pt \<le> close pt"
    by (simp only: pt point_fields p_def)
  have "p * 1 \<le> p * (1 + rnd (5 * i + 2) * 0.02)"
    using pos u(1) [of "5 * i + 2"] by (intro mult_left_mono) simp_all
  then have "toFixed 2 p \<le> toFixed 2 (p * (1 + rnd (5 * i + 2) * 0.02))"
    by (intro toFixed_mono) simp
  then have B: "close pt \<le> high pt"
    by (simp only: pt point_fields p_def)
  have "0 \<le> p * (1 - rnd (5 * i + 3) * 0.02)"
    using pos u(2) [of "5 * i + 3"] by (intro mult_nonneg_nonneg) simp_all
  then have "0 \<le> toFixed 2 (p * (1 - rnd (5 * i + 3) * 0.02))"
    by (rule toFixed_nonneg)
  then have C: "0 \<le> low pt"
    by (simp only: pt point_fields p_def)
  have D: "0 \<le> close pt"
    using pos by (simp only: cl) (rule toFixed_nonneg, simp)
  have "0.995 \<le> 1 + (rnd (5 * i + 4) - 0.5) * 0.01"
    using u(1) [of "5 * i + 4"] by (simp add: field_simps)
  then have "p * 0.995 \<le> p * (1 + (rnd (5 * i + 4) - 0.5) * 0.01)"
    using pos by (intro mult_left_mono) simp_all
  then have "toFixed 2 (p * 0.995) \<le> toFixed 2 (p * (1 + (rnd (5 * i + 4) - 0.5) * 0.01))"
    by (rule toFixed_mono)
  then have E: "toFixed 2 (p * 0.995) \<le> open_price pt"
    by (simp only: pt point_fields p_def)
  have "1 + (rnd (5 * i + 4) - 0.5) * 0.01 \<le> 1.005"
    using u(2) [of "5 * i + 4"] by (simp add: field_simps)
  then have "p * (1 + (rnd (5 * i + 4) - 0.5) * 0.01) \<le> p * 1.005"
    using pos by (intro mult_left_mono) simp_all
  then have "toFixed 2 (p * (1 + (rnd (5 * i + 4) - 0.5) * 0.01)) \<le> toFixed 2 (p * 1.005)"
    by (rule toFixed_mono)
  then have F: "open_price pt \<le> toFixed 2 (p * 1.005)"
    by (simp only: pt point_fields p_def)
  have G: "1 \<le> c \<longrightarrow> 0 < close pt"
  proof
    assume c1: "1 \<le> c"
    have "c * 0.05 \<le> basePrice s c" by (rule basePrice_bounds(1) [OF assms(2)])
    with c1 have "1 / 200 \<le> basePrice s c * 0.1" by simp
    also have "\<dots> \<le> p" unfolding p_def by (rule price_after_ge_floor [OF assms(2)])
    finally have "toFixed 2 (1 / 200) \<le> toFixed 2 p" by (rule toFixed_mono)
    then show "0 < close pt" by (simp add: cl toFixed_half_cent)
  qed
  from A B C D E F G show ?thesis
    unfolding pt_def p_def by (intro conjI)
qed

text \<open>
  Claim C5 at its failing input. On the first day of a bitcoin series at price 65000,
  when the draw for the high is 0 and the draw for the open is 0.9 (all other draws 0),
  the high is 9556.71 and the open is 9594.93: the open is above the high. The three
  draws of lines 201 to 203 are independent and their ranges overlap; the other chart
  branch (lines 508 to 511) derives open, high and low from the price by the fixed
  factors 0.999, 1.001 and 0.998 and keeps \<open>low \<le> open \<le> high\<close>.
\<close>

theorem open_above_high:
  "high (generate3YearHistoricalData ''bitcoin'' 65000 (\<lambda>k. if k = 4 then 9 / 10 else 0) ! 0)
   < open_price (generate3YearHistoricalData ''bitcoin'' 65000 (\<lambda>k. if k = 4 then 9 / 10 else 0) ! 0)"
proof -
  have p: "price_after ''bitcoin'' 65000 (\<lambda>k. if k = 4 then 9 / 10 else 0) (Suc 0)
           = 9750 * 0.975 + 55250 / 1095"
    by (simp add: next_price_def basePrice_bitcoin Let_def)
  have "high (generate3YearHistoricalData ''bitcoin'' 65000 (\<lambda>k. if k = 4 then 9 / 10 else 0) ! 0)
        = toFixed 2 ((9750 * 0.975 + 55250 / 1095) * (1 + 0 * 0.02))"
    by (simp only: generate_nth point_fields p) simp
  also have "\<dots> = 955671 / 100"
    by (simp add: toFixed_def)
  finally have h: "high (generate3YearHistoricalData ''bitcoin'' 65000 (\<lambda>k. if k = 4 then 9 / 10 else 0) ! 0)
        = 955671 / 100" .
  have "open_price (generate3YearHistoricalData ''bitcoin'' 65000 (\<lambda>k. if k = 4 then 9 / 10 else 0) ! 0)
        = toFixed 2 ((9750 * 0.975 + 55250 / 1095) * (1 + (9 / 10 - 0.5) * 0.01))"
    by (simp only: generate_nth point_fields p) simp
  also have "\<dots> = 959493 / 100"
    by (simp add: toFixed_def)
  finally have o: "open_price (generate3YearHistoricalData ''bitcoin'' 65000 (\<lambda>k. if k = 4 then 9 / 10 else 0) ! 0)
        = 959493 / 100" .
  show ?thesis by (simp add: h o)
qed

text \<open>At a current price of one cent the first close is rounded to 0.\<close>

lemma tiny_price_close_zero:
  "close (generate3YearHistoricalData ''bitcoin'' (1 / 100) (\<lambda>k. 0) ! 0) = 0"
proof -
  have p: "price_after ''bitcoin'' (1 / 100) (\<lambda>k. 0) (Suc 0)
           = 0.0015 * 0.975 + 0.0085 / 1095"
    by (simp add: next_price_def basePrice_bitcoin Let_def)
  have "close (generate3YearHistoricalData ''bitcoin'' (1 / 100) (\<lambda>k. 0) ! 0)
        = toFixed 2 (0.0015 * 0.975 + 0.0085 / 1095)"
    by (simp only: generate_nth point_fields p)
  also have "\<dots> = 0"
    by (simp add: toFixed_def)
  finally show ?thesis .
qed

lemma price_after_cong:
  "\<forall>i<n. rnd (5 * i) = rnd' (5 * i) \<Longrightarrow> price_after s c rnd n = price_after s c rnd' n"
proof (induction n)
  case 0
  show ?case by simp
next
  case (Suc n)
  then have "price_after s c rnd n = price_after s c rnd' n" and "rnd (5 * n) = rnd' (5 * n)"
    by simp_all
  then show ?case by (simp add: next_price_def)
qed

lemma price_after_1095:
  "price_after s c rnd 1095 = next_price s c rnd 1094 (price_after s c rnd 1094)"
proof -
  have "(1095::nat) = Suc 1094" by simp
  then show ?thesis by (simp only: price_after.simps)
qed

lemma last_close:
  "close (last (generate3YearHistoricalData s c rnd)) = toFixed 2 (price_after s c rnd 1095)"
proof -
  have "last (generate3YearHistoricalData s c rnd) = generate3YearHistoricalData s c rnd ! 1094"
    by (simp add: last_conv_nth generate_length flip: length_0_conv)
  also have "\<dots> = point_of_day s c rnd 1094"
    by (rule generate_nth) simp
  finally show ?thesis by (simp add: point_fields)
qed

text \<open>
  Claim C1, as the code has it. The series has 1095 points. The trend increment, added
  1095 times, amounts to the gap between the base price and the current price, but the
  noise and seasonal terms are added on top each day: the last close is the running
  price after the 1095th update rounded to two decimals, and all that is guaranteed about
  it is the floor of a tenth of the base price.
\<close>

theorem last_close_value:
  "length (generate3YearHistoricalData s c rnd) = 1095
   \<and> close (last (generate3YearHistoricalData s c rnd)) = toFixed 2 (price_after s c rnd 1095)
   \<and> 1095 * ((c - basePrice s c) / 1095) = c - basePrice s c
   \<and> basePrice s c * 0.1 \<le> price_after s c rnd 1095
   \<and> toFixed 2 (basePrice s c * 0.1) \<le> close (last (generate3YearHistoricalData s c rnd))"
proof -
  have fl: "basePrice s c * 0.1 \<le> price_after s c rnd 1095"
    by (simp only: price_after_1095) (rule next_price_ge_floor)
  then have "toFixed 2 (basePrice s c * 0.1) \<le> toFixed 2 (price_after s c rnd 1095)"
    by (rule toFixed_mono)
  then have "toFixed 2 (basePrice s c * 0.1) \<le> close (last (generate3YearHistoricalData s c rnd))"
    by (simp only: last_close)
  moreover have "1095 * ((c - basePrice s c) / 1095) = c - basePrice s c"
    by simp
  ultimately show ?thesis
    using fl by (simp only: generate_length last_close simp_thms)
qed

text \<open>The theorem on a bitcoin series at price 65000.\<close>

theorem last_close_value_witness:
  "length (generate3YearHistoricalData ''bitcoin'' 65000 (\<lambda>k. 1 / 2)) = 1095
   \<and> 975 \<le> close (last (generate3YearHistoricalData ''bitcoin'' 65000 (\<lambda>k. 1 / 2)))"
proof -
  have "toFixed 2 (basePrice ''bitcoin'' 65000 * 0.1) = 975"
    by (simp add: basePrice_bitcoin toFixed_def)
  with last_close_value [of "''bitcoin''" 65000 "\<lambda>k. 1 / 2"] show ?thesis
    by simp
qed

text \<open>
  Claim C1 as stated fails. Two bitcoin runs at price 65000 that differ only in the draw
  of the last day's noise (0 in one, 0.9 in the other) end more than 43 apart or both on
  the floor 975, so they cannot both end within 1 of 65000.
\<close>

theorem anchoring_counterexample:
  "\<not> (\<bar>close (last (generate3YearHistoricalData ''bitcoin'' 65000 (\<lambda>k. 0))) - 65000\<bar> \<le> 1
      \<and> \<bar>close (last (generate3YearHistoricalData ''bitcoin'' 65000
              (\<lambda>k. if k = 5470 then 9 / 10 else 0))) - 65000\<bar> \<le> 1)"
proof
  define rndA :: "nat \<Rightarrow> real" where "rndA = (\<lambda>k. 0)"
  define rndB :: "nat \<Rightarrow> real" where "rndB = (\<lambda>k. if k = 5470 then 9 / 10 else 0)"
  define p where "p = price_after ''bitcoin'' 65000 rndA 1094"
  define cy where "cy = sin ((real (1094::nat) / 365) * 2 * pi) * 0.1"
  define x where "x = p + 55250 / 1095 + p * (- 0.025) + p * cy"
  assume "\<bar>close (last (generate3YearHistoricalData ''bitcoin'' 65000 (\<lambda>k. 0))) - 65000\<bar> \<le> 1
      \<and> \<bar>close (last (generate3YearHistoricalData ''bitcoin'' 65000
              (\<lambda>k. if k = 5470 then 9 / 10 else 0))) - 65000\<bar> \<le> 1"
  then have a: "\<bar>toFixed 2 (price_after ''bitcoin'' 65000 rndA 1095) - 65000\<bar> \<le> 1"
    and b: "\<bar>toFixed 2 (price_after ''bitcoin'' 65000 rndB 1095) - 65000\<bar> \<le> 1"
    by (simp_all only: last_close rndA_def rndB_def)
  have "\<forall>i<1094. rndB (5 * i) = rndA (5 * i)"
    by (auto simp: rndA_def rndB_def)
  then have pB: "price_after ''bitcoin'' 65000 rndB 1094 = p"
    unfolding p_def by (rule price_after_cong)
  have "(0::real) < 65000" by simp
  from price_after_ge_floor [OF this, of "''bitcoin''" rndA 1094]
  have pfl: "975 \<le> p"
    by (simp add: p_def basePrice_bitcoin)
  have np: "next_price ''bitcoin'' 65000 rnd 1094 q
        = max (q + 55250 / 1095 + q * ((rnd 5470 - 0.5) * 0.05) + q * cy) 975" for rnd q
    unfolding cy_def by (simp add: next_price_def basePrice_bitcoin Let_def)
  have "price_after ''bitcoin'' 65000 rndA 1095
        = max (p + 55250 / 1095 + p * ((rndA 5470 - 0.5) * 0.05) + p * cy) 975"
    by (simp only: price_after_1095 np p_def)
  also have "p + 55250 / 1095 + p * ((rndA 5470 - 0.5) * 0.05) + p * cy = x"
    by (simp add: rndA_def x_def)
  finally have qA: "price_after ''bitcoin'' 65000 rndA 1095 = max x 975" .
  have "price_after ''bitcoin'' 65000 rndB 1095
        = max (p + 55250 / 1095 + p * ((rndB 5470 - 0.5) * 0.05) + p * cy) 975"
    by (simp only: price_after_1095 np pB)
  also have "p + 55250 / 1095 + p * ((rndB 5470 - 0.5) * 0.05) + p * cy = x + p * 0.045"
    by (simp add: rndB_def x_def algebra_simps)
  finally have qB: "price_after ''bitcoin'' 65000 rndB 1095 = max (x + p * 0.045) 975" .
  have eA: "\<bar>toFixed 2 (max x 975) - max x 975\<bar> \<le> 1 / 200"
    and eB: "\<bar>toFixed 2 (max (x + p * 0.045) 975) - max (x + p * 0.045) 975\<bar> \<le> 1 / 200"
    by (rule toFixed_error)+
  from a have "\<bar>toFixed 2 (max x 975) - 65000\<bar> \<le> 1"
    by (simp only: qA)
  with eA have "64998 \<le> max x 975"
    by linarith
  then have xl: "64998 \<le> x" by (simp add: max_def split: if_splits)
  from pfl have "43 \<le> p * 0.045" by simp
  with xl have "65041 \<le> max (x + p * 0.045) 975" by (simp add: max_def)
  moreover from b have "\<bar>toFixed 2 (max (x + p * 0.045) 975) - 65000\<bar> \<le> 1"
    by (simp only: qB)
  ultimately show False
    using eB by linarith
qed

section \<open>The null guard of the indicators\<close>

text \<open>
  Between day 213 and day 334 of a year the seasonal term is at most \<open>-0.05\<close>; for
  dogecoin that outweighs the trend and any noise, so the running price does not rise.
\<close>

lemma sin_ge_half:
  assumes "pi / 6 \<le> y" and "y \<le> 5 * pi / 6"
  shows "1 / 2 \<le> sin y"
proof (cases "y \<le> pi / 2")
  case True
  have "sin (pi / 6) \<le> sin y"
    using assms(1) True by (intro sin_monotone_2pi_le) (simp_all add: field_simps)
  then show ?thesis by (simp add: sin_30)
next
  case False
  have "sin (pi / 6) \<le> sin (pi - y)"
    using assms(2) False by (intro sin_monotone_2pi_le) (simp_all add: field_simps)
  then show ?thesis by (simp add: sin_30)
qed

lemma seasonal_trough:
  assumes "213 \<le> i" and "i \<le> 334"
  shows "sin ((real i / 365) * 2 * pi) \<le> - (1 / 2)"
proof -
  define y where "y = (real i / 365) * 2 * pi - pi"
  have i: "213 \<le> real i" "real i \<le> 334" using assms by simp_all
  have "pi / 6 = (365 / 6) * (pi / 365)" by simp
  also have "\<dots> \<le> (2 * real i - 365) * (pi / 365)"
    using i by (intro mult_right_mono) simp_all
  also have "\<dots> = y" by (simp add: y_def field_simps)
  finally have lo: "pi / 6 \<le> y" .
  have "y = (2 * real i - 365) * (pi / 365)" by (simp add: y_def field_simps)
  also have "\<dots> \<le> (5 * 365 / 6) * (pi / 365)"
    using i by (intro mult_right_mono) simp_all
  also have "\<dots> = 5 * pi / 6" by simp
  finally have hi: "y \<le> 5 * pi / 6" .
  have "sin ((real i / 365) * 2 * pi) = sin (y + pi)" by (simp add: y_def)
  also have "\<dots> = - sin y" by (rule sin_periodic_pi)
  finally show ?thesis using sin_ge_half [OF lo hi] by simp
qed

lemma dogecoin_falls:
  assumes "valid_random rnd" and "0 < c" and "213 \<le> i" and "i \<le> 334"
  shows "price_after ''dogecoin'' c rnd (Suc i) \<le> price_after ''dogecoin'' c rnd i"
proof -
  define p where "p = price_after ''dogecoin'' c rnd i"
  define r where "r = (rnd (5 * i) - 0.5) * 0.05"
  define cy where "cy = sin ((real i / 365) * 2 * pi) * 0.1"
  have fl: "c * 0.03 \<le> p"
    using price_after_ge_floor [OF assms(2), of "''dogecoin''" rnd i]
    by (simp add: p_def basePrice_dogecoin)
  have "rnd (5 * i) < 1" using assms(1) by (simp add: valid_random_def)
  then have r: "r \<le> 0.025" by (simp add: r_def)
  have cy: "cy \<le> - 0.05"
    using seasonal_trough [OF assms(3,4)] by (simp add: cy_def)
  from r cy have "r + cy \<le> - 0.025" by simp
  moreover have "0 \<le> c * 0.03" using assms(2) by simp
  then have "0 \<le> p" using fl by linarith
  ultimately have "p * (r + cy) \<le> p * (- 0.025)"
    by (intro mult_left_mono)
  also have "\<dots> \<le> (c * 0.03) * (- 0.025)"
    using fl by simp
  finally have a: "p * (r + cy) \<le> - (c * 0.00075)" by simp
  have b: "c * 0.7 / 1095 \<le> c * 0.00075" using assms(2) by simp
  have "p * r + p * cy = p * (r + cy)" by (simp only: distrib_left)
  with a b have le: "p + c * 0.7 / 1095 + p * r + p * cy \<le> p"
    by linarith
  have "next_price ''dogecoin'' c rnd i p
        = max (p + (c - c * 0.3) / 1095 + p * r + p * cy) (c * 0.3 * 0.1)"
    by (simp only: next_price_def basePrice_dogecoin Let_def r_def cy_def)
  also have "\<dots> = max (p + c * 0.7 / 1095 + p * r + p * cy) (c * 0.03)"
    by simp
  also have "\<dots> \<le> p"
    using le fl by simp
  finally show ?thesis by (simp only: p_def price_after.simps)
qed

lemma no_rise_rsi_falsy:
  assumes "15 \<le> length prices" and "\<forall>i\<in>set [1..<15]. change_at prices i \<le> 0"
  shows "\<exists>v. calculateRSI prices 14 = Some v \<and> \<not> js_truthy v"
proof -
  define l where "l = snd (fold (rsi_step prices) [1..<15] (0, 0))"
  have g: "fst (fold (rsi_step prices) [1..<15] (0, 0)) = 0"
    using assms(2) by (simp add: rsi_fold_no_gain)
  have "0 \<le> l"
    using rsi_accumulators_nonneg [of prices "[1..<15]"] by (simp add: l_def)
  then have "\<not> js_truthy (rsi_value 0 l)"
    by (cases "l = 0") (simp_all add: rsi_value_flat rsi_value_no_gain)
  moreover have "calculateRSI prices 14 = Some (rsi_value 0 l)"
    using assms(1) by (simp only: calculateRSI_14 g l_def) simp
  ultimately show ?thesis by simp
qed

lemma rsi_field:
  "rsi (indicators (point_of_day s c rnd i))
     = (if js_truthy_opt (calculateRSI (prices_after s c rnd (Suc i)) 14)
        then Some (js_toFixed 2 (the (calculateRSI (prices_after s c rnd (Suc i)) 14)))
        else None)"
  by (simp add: point_of_day_def make_point_def Let_def)

lemma change_at_prices_after:
  assumes "i \<in> set [1..<15]" and "14 \<le> n"
  shows "change_at (prices_after s c rnd (Suc n)) i
       = price_after s c rnd (Suc (Suc n - i)) - price_after s c rnd (Suc n - i)"
proof -
  from assms have i: "1 \<le> i" "i < 15" by simp_all
  have a: "Suc n - i < Suc n" using i by simp
  have b: "Suc n - i - 1 < Suc n" using i by simp
  have c: "Suc (Suc n - i - 1) = Suc n - i" using i assms(2) by simp
  show ?thesis
    by (simp only: change_at_def length_prices_after nth_prices_after [OF a]
        nth_prices_after [OF b] c)
qed

lemma dogecoin_rsi_null:
  assumes "valid_random rnd" and "0 < c" and "226 \<le> n" and "n \<le> 334"
  shows "rsi (indicators (generate3YearHistoricalData ''dogecoin'' c rnd ! n)) = None"
    and "calculateRSI (prices_after ''dogecoin'' c rnd (Suc n)) 14 \<noteq> None"
proof -
  have n14: "14 \<le> n" using assms(3) by simp
  have "\<forall>i\<in>set [1..<15]. change_at (prices_after ''dogecoin'' c rnd (Suc n)) i \<le> 0"
  proof
    fix i assume i: "i \<in> set [1..<15]"
    then have "213 \<le> Suc n - i" and "Suc n - i \<le> 334"
      using assms(3,4) by auto
    from dogecoin_falls [OF assms(1,2) this]
    show "change_at (prices_after ''dogecoin'' c rnd (Suc n)) i \<le> 0"
      by (simp add: change_at_prices_after [OF i n14])
  qed
  moreover have "15 \<le> length (prices_after ''dogecoin'' c rnd (Suc n))"
    using n14 by (simp add: length_prices_after)
  ultimately obtain v where v: "calculateRSI (prices_after ''dogecoin'' c rnd (Suc n)) 14 = Some v"
    "\<not> js_truthy v"
    using no_rise_rsi_falsy by blast
  from v show "calculateRSI (prices_after ''dogecoin'' c rnd (Suc n)) 14 \<noteq> None" by simp
  have "n < 1095" using assms(4) by simp
  then show "rsi (indicators (generate3YearHistoricalData ''dogecoin'' c rnd ! n)) = None"
    using v by (simp add: generate_nth rsi_field)
qed

text \<open>
  Claim C4 at its failing input. On day 300 of a dogecoin series at price 100 (draws all
  one half) the price list holds 301 observations and \<^verbatim>\<open>calculateRSI\<close> returns a value,
  but the prices have not risen for 14 days, the value is 0 or \<^verbatim>\<open>NaN\<close>, and the
  truthiness test of line 227 stores \<^verbatim>\<open>null\<close>.
\<close>

theorem rsi_null_despite_history:
  "rsi (indicators (generate3YearHistoricalData ''dogecoin'' 100 (\<lambda>k. 1 / 2) ! 300)) = None
   \<and> calculateRSI (prices_after ''dogecoin'' 100 (\<lambda>k. 1 / 2) 301) 14 \<noteq> None"
proof -
  have v: "valid_random (\<lambda>k. 1 / 2)" by (simp add: valid_random_def)
  have c: "(0::real) < 100" by simp
  have "Suc 300 = 301" by simp
  with dogecoin_rsi_null [OF v c, of 300] show ?thesis by simp
qed

lemma sma_defined_pos:
  assumes "0 < period" and "period \<le> length prices" and "\<forall>x\<in>set prices. 0 < x"
  shows "\<exists>v. calculateSMA prices period = Some v \<and> 0 < v"
proof -
  have sl: "slice_last period prices = drop (length prices - period) prices"
    using assms(1) by (simp add: slice_last_def)
  have ne: "drop (length prices - period) prices \<noteq> []"
    using assms(1,2) by simp
  have "\<forall>x\<in>set (drop (length prices - period) prices). 0 < x"
    using assms(3) by (meson in_set_dropD)
  with ne have "0 < sum_list (drop (length prices - period) prices)"
    by (rule sum_list_pos_real)
  then have "0 < sum_list (slice_last period prices) / real period"
    using assms(1) by (simp add: sl)
  moreover have "calculateSMA prices period = Some (sum_list (slice_last period prices) / real period)"
    using assms(2) by (simp add: calculateSMA_def Let_def foldl_plus_sum_list)
  ultimately show ?thesis by simp
qed

lemma sma_truthy_iff:
  assumes "0 < period" and "\<forall>x\<in>set prices. 0 < x"
  shows "truthy (calculateSMA prices period) = (period \<le> length prices)"
proof (cases "period \<le> length prices")
  case True
  with sma_defined_pos [OF assms(1) True assms(2)] show ?thesis by auto
next
  case False
  then show ?thesis by (simp add: calculateSMA_def)
qed

lemma prices_after_pos:
  assumes "0 < c"
  shows "\<forall>x\<in>set (prices_after s c rnd n). 0 < x"
proof
  fix x assume "x \<in> set (prices_after s c rnd n)"
  then obtain k where "x = price_after s c rnd (Suc k)"
    unfolding prices_after_def by (auto simp del: price_after.simps)
  then show "0 < x" by (simp only: price_after_pos [OF assms])
qed

lemma sma_fields:
  "sma20 (indicators (point_of_day s c rnd i)) = None
     \<longleftrightarrow> \<not> truthy (calculateSMA (prices_after s c rnd (Suc i)) 20)"
  "sma50 (indicators (point_of_day s c rnd i)) = None
     \<longleftrightarrow> \<not> truthy (calculateSMA (prices_after s c rnd (Suc i)) 50)"
  "sma200 (indicators (point_of_day s c rnd i)) = None
     \<longleftrightarrow> \<not> truthy (calculateSMA (prices_after s c rnd (Suc i)) 200)"
  "upper (bollinger (indicators (point_of_day s c rnd i))) = None
     \<longleftrightarrow> \<not> truthy (calculateSMA (prices_after s c rnd (Suc i)) 20)"
  "lower (bollinger (indicators (point_of_day s c rnd i))) = None
     \<longleftrightarrow> \<not> truthy (calculateSMA (prices_after s c rnd (Suc i)) 20)"
  by (simp_all add: point_of_day_def make_point_def Let_def)

lemma macd_field:
  "macd (indicators (point_of_day s c rnd i))
     = (if truthy (calculateMACD (prices_after s c rnd (Suc i)))
        then Some (toFixed 4 (the (calculateMACD (prices_after s c rnd (Suc i)))))
        else None)"
  by (simp add: point_of_day_def make_point_def Let_def)

text \<open>
  The part of the null guard that holds: the moving averages and the bands are null
  exactly on the points with fewer observations than their period, and the index and the
  convergence/divergence value are null on the points with too few observations.
\<close>

lemma indicator_null_guard:
  assumes "0 < c" and "i < 1095"
  shows "(sma20 (indicators (generate3YearHistoricalData s c rnd ! i)) = None) = (Suc i < 20)"
    and "(sma50 (indicators (generate3YearHistoricalData s c rnd ! i)) = None) = (Suc i < 50)"
    and "(sma200 (indicators (generate3YearHistoricalData s c rnd ! i)) = None) = (Suc i < 200)"
    and "(upper (bollinger (indicators (generate3YearHistoricalData s c rnd ! i))) = None)
           = (Suc i < 20)"
    and "(lower (bollinger (indicators (generate3YearHistoricalData s c rnd ! i))) = None)
           = (Suc i < 20)"
    and "Suc i < 15 \<Longrightarrow> rsi (indicators (generate3YearHistoricalData s c rnd ! i)) = None"
    and "Suc i < 26 \<Longrightarrow> macd (indicators (generate3YearHistoricalData s c rnd ! i)) = None"
proof -
  have t: "truthy (calculateSMA (prices_after s c rnd (Suc i)) period) = (period \<le> Suc i)"
    if "0 < period" for period
    using sma_truthy_iff [OF that prices_after_pos [OF assms(1)], of s rnd "Suc i"]
    by (simp add: length_prices_after)
  show "(sma20 (indicators (generate3YearHistoricalData s c rnd ! i)) = None) = (Suc i < 20)"
    using assms(2) t [of 20] by (simp add: generate_nth sma_fields not_le)
  show "(sma50 (indicators (generate3YearHistoricalData s c rnd ! i)) = None) = (Suc i < 50)"
    using assms(2) t [of 50] by (simp add: generate_nth sma_fields not_le)
  show "(sma200 (indicators (generate3YearHistoricalData s c rnd ! i)) = None) = (Suc i < 200)"
    using assms(2) t [of 200] by (simp add: generate_nth sma_fields not_le)
  show "(upper (bollinger (indicators (generate3YearHistoricalData s c rnd ! i))) = None)
           = (Suc i < 20)"
    using assms(2) t [of 20] by (simp add: generate_nth sma_fields not_le)
  show "(lower (bollinger (indicators (generate3YearHistoricalData s c rnd ! i))) = None)
           = (Suc i < 20)"
    using assms(2) t [of 20] by (simp add: generate_nth sma_fields not_le)
  show "rsi (indicators (generate3YearHistoricalData s c rnd ! i)) = None" if "Suc i < 15"
    using assms(2) that
    by (simp add: generate_nth rsi_field calculateRSI_def length_prices_after)
  show "macd (indicators (generate3YearHistoricalData s c rnd ! i)) = None" if "Suc i < 26"
    using assms(2) that
    by (simp add: generate_nth macd_field calculateMACD_def calculateEMA_def
        length_prices_after Let_def)
qed

text \<open>
  The index attached to a point: the truthiness test drops \<^verbatim>\<open>NaN\<close> (and 0), so
  what is attached lies between 0 and 100.
\<close>

lemma attached_rsi_range:
  assumes "i < 1095" and "rsi (indicators (generate3YearHistoricalData s c rnd ! i)) = Some v"
  shows "\<exists>x. v = Fin x \<and> 0 \<le> x \<and> x \<le> 100"
proof -
  define r where "r = calculateRSI (prices_after s c rnd (Suc i)) 14"
  from assms have tr: "js_truthy_opt r" and v: "v = js_toFixed 2 (the r)"
    by (simp_all add: generate_nth rsi_field r_def split: if_splits)
  from tr obtain w where w: "r = Some w" "js_truthy w" by (cases r) auto
  from calculateRSI_range [of "prices_after s c rnd (Suc i)" w] w
  obtain x where x: "w = Fin x" "0 \<le> x" "x \<le> 100"
    by (auto simp: r_def)
  have "toFixed 2 0 \<le> toFixed 2 x" and "toFixed 2 x \<le> toFixed 2 100"
    using x by (auto intro: toFixed_mono)
  moreover have "toFixed 2 100 = 100" by (simp add: toFixed_def)
  ultimately have "0 \<le> toFixed 2 x" and "toFixed 2 x \<le> 100"
    by (simp_all add: toFixed_zero)
  with v w x show ?thesis by simp
qed

section \<open>The uncertainty band of the predictions\<close>

lemma pred_price_finite:
  "pred_price (Fin a) rnd i (Fin p) = Fin (p * (1 + total_change a rnd i))"
  by (simp add: pred_price_def total_change_def Let_def)

lemma pred_price_after_finite:
  "pred_price_after c (Fin a) rnd n = Fin (finite_price_after c a rnd n)"
  by (induction n) (simp_all add: pred_price_finite)

lemma range_fields:
  "predictedPrice (prediction_of_step c (Fin a) rnd i)
     = Fin (toFixed 2 (finite_price_after c a rnd i))"
  "range_high (prediction_of_step c (Fin a) rnd i)
     = Fin (toFixed 2 (finite_price_after c a rnd i
                        + finite_price_after c a rnd i * 0.1 * (real i / 30)))"
  "range_low (prediction_of_step c (Fin a) rnd i)
     = Fin (toFixed 2 (finite_price_after c a rnd i
                        - finite_price_after c a rnd i * 0.1 * (real i / 30)))"
  by (simp_all add: prediction_of_step_def make_prediction_def Let_def
      pred_price_after_finite js_sub_def)

text \<open>
  The width of the band that is put out, against the width before rounding: each
  bound moves by at most half a cent.
\<close>

lemma rounded_width:
  "\<bar>(toFixed 2 (P + P * 0.1 * (real i / 30)) - toFixed 2 (P - P * 0.1 * (real i / 30)))
      - P * real i / 150\<bar> \<le> 1 / 100"
proof -
  define x where "x = P + P * 0.1 * (real i / 30)"
  define y where "y = P - P * 0.1 * (real i / 30)"
  have "\<bar>toFixed 2 x - x\<bar> \<le> 1 / 200" and "\<bar>toFixed 2 y - y\<bar> \<le> 1 / 200"
    by (rule toFixed_error)+
  moreover have "x - y = P * real i / 150"
    by (simp add: x_def y_def)
  ultimately have "\<bar>(toFixed 2 x - toFixed 2 y) - P * real i / 150\<bar> \<le> 1 / 100"
    by linarith
  then show ?thesis by (simp only: x_def y_def)
qed

lemma band_width_of_step:
  assumes "avgChange h = Fin a" and "i < 30"
  shows "js_sub (range_high (generateFuturePredictions s c h rnd ! i))
                (range_low (generateFuturePredictions s c h rnd ! i))
         = Fin (toFixed 2 (finite_price_after c a rnd (Suc i)
                            + finite_price_after c a rnd (Suc i) * 0.1 * (real (Suc i) / 30))
                - toFixed 2 (finite_price_after c a rnd (Suc i)
                            - finite_price_after c a rnd (Suc i) * 0.1 * (real (Suc i) / 30)))"
  using assms by (simp only: predictions_nth range_fields js_sub_def js_neg.simps js_add.simps)
    simp

text \<open>
  Claim C6, as the code has it. When the average return of the history is a finite number
  \<open>a\<close>, step \<open>i\<close> puts out the running price rounded to two decimals and the band
  of \<open>price\<close> plus and minus \<open>price * 0.1 * (i / 30)\<close>, each bound rounded to two decimals, so the width
  \<open>range.high - range.low\<close> that is put out is within 0.01 of \<open>price * i / 150\<close>. From a
  step to a later one at which the running price is not lower, the width that is put out
  does not decrease by more than the 0.02 that the rounding can take.
\<close>

theorem band_width:
  assumes "avgChange h = Fin a" and "i < 30"
  shows "predictedPrice (generateFuturePredictions s c h rnd ! i)
           = Fin (toFixed 2 (finite_price_after c a rnd (Suc i)))
    \<and> range_high (generateFuturePredictions s c h rnd ! i)
           = Fin (toFixed 2 (finite_price_after c a rnd (Suc i)
                              + finite_price_after c a rnd (Suc i) * 0.1 * (real (Suc i) / 30)))
    \<and> range_low (generateFuturePredictions s c h rnd ! i)
           = Fin (toFixed 2 (finite_price_after c a rnd (Suc i)
                              - finite_price_after c a rnd (Suc i) * 0.1 * (real (Suc i) / 30)))
    \<and> (\<exists>w. js_sub (range_high (generateFuturePredictions s c h rnd ! i))
                    (range_low (generateFuturePredictions s c h rnd ! i)) = Fin w
             \<and> \<bar>w - finite_price_after c a rnd (Suc i) * real (Suc i) / 150\<bar> \<le> 1 / 100)
    \<and> (\<forall>j. i \<le> j \<and> j < 30 \<and> 0 \<le> finite_price_after c a rnd (Suc i)
             \<and> finite_price_after c a rnd (Suc i) \<le> finite_price_after c a rnd (Suc j)
           \<longrightarrow> js_le (js_sub (js_sub (range_high (generateFuturePredictions s c h rnd ! i))
                                    (range_low (generateFuturePredictions s c h rnd ! i)))
                            (Fin 0.02))
                    (js_sub (range_high (generateFuturePredictions s c h rnd ! j))
                            (range_low (generateFuturePredictions s c h rnd ! j))))"
proof -
  define P where "P = (\<lambda>k. finite_price_after c a rnd (Suc k))"
  define W where "W = (\<lambda>k. toFixed 2 (P k + P k * 0.1 * (real (Suc k) / 30))
                           - toFixed 2 (P k - P k * 0.1 * (real (Suc k) / 30)))"
  have w: "js_sub (range_high (generateFuturePredictions s c h rnd ! k))
                  (range_low (generateFuturePredictions s c h rnd ! k)) = Fin (W k)"
    if "k < 30" for k
    using band_width_of_step [OF assms(1) that] by (simp only: W_def P_def)
  have e: "\<bar>W k - P k * real (Suc k) / 150\<bar> \<le> 1 / 100" for k
    unfolding W_def by (rule rounded_width)
  have A: "predictedPrice (generateFuturePredictions s c h rnd ! i)
           = Fin (toFixed 2 (finite_price_after c a rnd (Suc i)))"
    using assms by (simp only: predictions_nth range_fields)
  have B: "range_high (generateFuturePredictions s c h rnd ! i)
           = Fin (toFixed 2 (finite_price_after c a rnd (Suc i)
                              + finite_price_after c a rnd (Suc i) * 0.1 * (real (Suc i) / 30)))"
    using assms by (simp only: predictions_nth range_fields)
  have C: "range_low (generateFuturePredictions s c h rnd ! i)
           = Fin (toFixed 2 (finite_price_after c a rnd (Suc i)
                              - finite_price_after c a rnd (Suc i) * 0.1 * (real (Suc i) / 30)))"
    using assms by (simp only: predictions_nth range_fields)
  have D: "\<exists>w. js_sub (range_high (generateFuturePredictions s c h rnd ! i))
                    (range_low (generateFuturePredictions s c h rnd ! i)) = Fin w
             \<and> \<bar>w - finite_price_after c a rnd (Suc i) * real (Suc i) / 150\<bar> \<le> 1 / 100"
    using w [OF assms(2)] e [of i] unfolding P_def by blast
  have E: "js_le (js_sub (js_sub (range_high (generateFuturePredictions s c h rnd ! i))
                                    (range_low (generateFuturePredictions s c h rnd ! i)))
                            (Fin 0.02))
                    (js_sub (range_high (generateFuturePredictions s c h rnd ! j))
                            (range_low (generateFuturePredictions s c h rnd ! j)))"
    if "i \<le> j \<and> j < 30 \<and> 0 \<le> finite_price_after c a rnd (Suc i)
             \<and> finite_price_after c a rnd (Suc i) \<le> finite_price_after c a rnd (Suc j)" for j
  proof -
    from that have j: "j < 30" and le: "real (Suc i) \<le> real (Suc j)"
      and P: "0 \<le> P i" "P i \<le> P j"
      by (simp_all add: P_def)
    have "P i * real (Suc i) \<le> P j * real (Suc j)"
      using le P by (intro mult_mono) simp_all
    then have "P i * real (Suc i) / 150 \<le> P j * real (Suc j) / 150"
      by (simp del: of_nat_Suc)
    with e [of i] e [of j] have "W i - 0.02 \<le> W j"
      by (simp only: abs_le_iff) (simp del: of_nat_Suc)
    then have "js_le (js_sub (Fin (W i)) (Fin 0.02)) (Fin (W j))"
      by (simp add: js_sub_def)
    then show ?thesis
      by (simp only: w [OF assms(2)] w [OF j])
  qed
  from A B C D E show ?thesis by (intro conjI allI impI)
qed

text \<open>
  The prediction reads the last 30 points of the history and nothing before them: what
  is shown below on the falling history holds on every history that ends with the same
  30 closes.
\<close>

lemma predictions_read_last_30:
  assumes "length tail = 30"
  shows "avgChange (earlier @ tail) = avgChange tail"
    and "generateFuturePredictions s c (earlier @ tail) rnd
         = generateFuturePredictions s c tail rnd"
proof -
  have "slice_last 30 (earlier @ tail) = slice_last 30 tail"
    using assms by (simp add: slice_last_def)
  then show "avgChange (earlier @ tail) = avgChange tail"
    by (simp only: avgChange_def)
  then show "generateFuturePredictions s c (earlier @ tail) rnd
         = generateFuturePredictions s c tail rnd"
    by (simp only: generateFuturePredictions_def)
qed

text \<open>The sum the reducer of the average return builds, between bounds on its terms.\<close>

lemma avg_fold_bounds:
  assumes "\<forall>i. 1 \<le> i \<and> i \<le> m \<longrightarrow> cl (i - 1) \<noteq> 0 \<and> lo \<le> (cl i - cl (i - 1)) / cl (i - 1)
             \<and> (cl i - cl (i - 1)) / cl (i - 1) \<le> hi"
  shows "\<exists>t. fold (\<lambda>i sum. if i = 0 then Fin 0
              else js_add sum (js_div (Fin (cl i - cl (i - 1))) (Fin (cl (i - 1)))))
           [1..<Suc m] (Fin s) = Fin t \<and> s + real m * lo \<le> t \<and> t \<le> s + real m * hi"
  using assms
proof (induction m)
  case 0
  show ?case by simp
next
  case (Suc m)
  then obtain t where t: "fold (\<lambda>i sum. if i = 0 then Fin 0
              else js_add sum (js_div (Fin (cl i - cl (i - 1))) (Fin (cl (i - 1)))))
           [1..<Suc m] (Fin s) = Fin t" "s + real m * lo \<le> t" "t \<le> s + real m * hi"
    by fastforce
  define q where "q = (cl (Suc m) - cl m) / cl m"
  from Suc.prems have st: "cl m \<noteq> 0" "lo \<le> q" "q \<le> hi"
    unfolding q_def by (auto dest: spec [of _ "Suc m"])
  have "[1..<Suc (Suc m)] = [1..<Suc m] @ [Suc m]" by simp
  then have "fold (\<lambda>i sum. if i = 0 then Fin 0
              else js_add sum (js_div (Fin (cl i - cl (i - 1))) (Fin (cl (i - 1)))))
           [1..<Suc (Suc m)] (Fin s) = Fin (t + q)"
    by (simp only: fold_append comp_apply t(1)) (simp add: st q_def)
  moreover have "s + real (Suc m) * lo \<le> t + q" and "t + q \<le> s + real (Suc m) * hi"
    using t(2,3) st(2,3) by (simp_all add: algebra_simps)
  ultimately show ?case by blast
qed

text \<open>
  The last 30 closes of the falling history: each is within half a cent of
  \<open>200000 * 0.975 ^ k\<close>, each day's change is between \<open>-2.6\<close> and \<open>-2.4\<close> percent (a fall
  the generator produces on any day of its last month, where the seasonal term is
  negative and the noise reaches \<open>-2.5\<close> percent), and so is their average.
\<close>

lemma falling_close_tail:
  assumes "k < 30"
  shows "\<bar>falling_close (1065 + k) - 200000 * 0.975 ^ k\<bar> \<le> 1 / 200"
    and "90000 \<le> 200000 * (0.975::real) ^ k"
proof -
  show "\<bar>falling_close (1065 + k) - 200000 * 0.975 ^ k\<bar> \<le> 1 / 200"
    unfolding falling_close_def by (simp only: add_diff_cancel_left') (rule toFixed_error)
  define zk where "zk = (0.975::real) ^ k"
  define z where "z = (0.975::real) ^ 29"
  have "z \<le> zk"
    unfolding z_def zk_def using assms by (intro power_decreasing) simp_all
  moreover have "9 / 20 \<le> z"
    unfolding z_def by (simp add: power_divide)
  ultimately have "90000 \<le> 200000 * zk" by linarith
  then show "90000 \<le> 200000 * (0.975::real) ^ k" by (simp only: zk_def)
qed

lemma falling_ratio:
  assumes "1 \<le> i" and "i \<le> 29"
  shows "falling_close (1065 + (i - 1)) \<noteq> 0"
    and "- 0.026 \<le> (falling_close (1065 + i) - falling_close (1065 + (i - 1)))
                      / falling_close (1065 + (i - 1))"
    and "(falling_close (1065 + i) - falling_close (1065 + (i - 1)))
            / falling_close (1065 + (i - 1)) \<le> - 0.024"
proof -
  define x where "x = 200000 * (0.975::real) ^ (i - 1)"
  define u where "u = falling_close (1065 + (i - 1))"
  define v where "v = falling_close (1065 + i)"
  have i: "i - 1 < 30" "i < 30" "i = Suc (i - 1)" using assms by simp_all
  define y where "y = 200000 * (0.975::real) ^ i"
  have "(0.975::real) ^ i = 0.975 ^ (i - 1) * 0.975"
    by (subst i(3)) (simp only: power_Suc2)
  then have y: "y = x * (39 / 40)"
    by (simp add: y_def x_def)
  from falling_close_tail(1) [OF i(2)] have v: "\<bar>v - y\<bar> \<le> 1 / 200"
    by (simp only: v_def y_def)
  from falling_close_tail [OF i(1)] have u: "\<bar>u - x\<bar> \<le> 1 / 200" and x: "90000 \<le> x"
    by (simp_all only: u_def x_def)
  from u x have upos: "0 < u" by linarith
  have "- (26 / 1000) * u \<le> v - u" and "v - u \<le> - (24 / 1000) * u"
    using u v x y by linarith+
  then have "- (26 / 1000) \<le> (v - u) / u" and "(v - u) / u \<le> - (24 / 1000)"
    using upos by (simp_all add: pos_le_divide_eq pos_divide_le_eq)
  then have "- 0.026 \<le> (v - u) / u" and "(v - u) / u \<le> - 0.024"
    by simp_all
  then show "- 0.026 \<le> (falling_close (1065 + i) - falling_close (1065 + (i - 1)))
                      / falling_close (1065 + (i - 1))"
    and "(falling_close (1065 + i) - falling_close (1065 + (i - 1)))
            / falling_close (1065 + (i - 1)) \<le> - 0.024"
    by (simp_all only: u_def v_def)
  from upos show "falling_close (1065 + (i - 1)) \<noteq> 0" by (simp add: u_def)
qed

lemma avgChange_falling:
  "\<exists>a. avgChange falling_history = Fin a \<and> - 0.026 \<le> a \<and> a \<le> - 0.024"
proof -
  define cl :: "nat \<Rightarrow> real" where "cl = (\<lambda>i. falling_close (1065 + i))"
  have sl: "slice_last 30 falling_history
            = map (\<lambda>k. point_with_close (falling_close k)) [1065..<1095]"
    by (simp add: slice_last_def falling_history_def drop_map)
  have cl: "close (slice_last 30 falling_history ! i) = cl i" if "i < 30" for i
  proof -
    have "[1065..<1095] ! i = 1065 + i"
      using that by (intro nth_upt) simp
    moreover have "i < length [1065..<1095]"
      using that by (simp only: length_upt)
    ultimately have "slice_last 30 falling_history ! i = point_with_close (falling_close (1065 + i))"
      by (simp only: sl nth_map)
    then show ?thesis by (simp add: cl_def point_with_close_def)
  qed
  have h: "\<forall>i. 1 \<le> i \<and> i \<le> 29 \<longrightarrow> cl (i - 1) \<noteq> 0 \<and> - 0.026 \<le> (cl i - cl (i - 1)) / cl (i - 1)
             \<and> (cl i - cl (i - 1)) / cl (i - 1) \<le> - 0.024"
    unfolding cl_def using falling_ratio by blast
  from avg_fold_bounds [OF h, of 0] obtain t where t:
    "fold (\<lambda>i sum. if i = 0 then Fin 0
              else js_add sum (js_div (Fin (cl i - cl (i - 1))) (Fin (cl (i - 1)))))
           [1..<Suc 29] (Fin 0) = Fin t" "real 29 * - 0.026 \<le> t" "t \<le> real 29 * - 0.024"
    by auto
  have u: "[0..<30] = 0 # [1..<Suc 29]" by (simp add: upt_conv_Cons)
  have f: "fold (\<lambda>i sum. if i = 0 then Fin 0
              else js_add sum (js_div (Fin (cl i - cl (i - 1))) (Fin (cl (i - 1)))))
           [0..<30] (Fin 0) = Fin t"
    by (simp only: u fold_simps refl if_True t(1))
  have eq: "fold (\<lambda>i sum. if i = 0 then Fin 0
              else js_add sum
                     (js_div (Fin (close (slice_last 30 falling_history ! i)
                                   - close (slice_last 30 falling_history ! (i - 1))))
                             (Fin (close (slice_last 30 falling_history ! (i - 1))))))
           [0..<30] (Fin 0)
        = fold (\<lambda>i sum. if i = 0 then Fin 0
              else js_add sum (js_div (Fin (cl i - cl (i - 1))) (Fin (cl (i - 1)))))
           [0..<30] (Fin 0)"
    by (rule fold_cong) (auto simp: cl)
  have len: "length (slice_last 30 falling_history) = 30"
    by (simp only: sl length_map length_upt)
  have "avgChange falling_history = js_div (Fin t) (Fin 29)"
    by (simp add: avgChange_def Let_def len eq f)
  then have "avgChange falling_history = Fin (t / 29)" by simp
  moreover have "- 0.026 \<le> t / 29" and "t / 29 \<le> - 0.024"
    using t(2,3) by simp_all
  ultimately show ?thesis by blast
qed

lemma sin_step_25: "sin ((real (25::nat) / 30) * 2 * pi) = - (sqrt 3 / 2)"
proof -
  have "(real (25::nat) / 30) * 2 * pi = 2 * pi - pi / 3" by simp
  then have "sin ((real (25::nat) / 30) * 2 * pi) = sin (2 * pi - pi / 3)" by (simp only:)
  also have "\<dots> = - sin (pi / 3)" by (rule sin_2pi_minus)
  finally show ?thesis by (simp only: sin_60)
qed

lemma sqrt3_lower: "173 / 100 \<le> sqrt (3::real)"
  by (rule real_le_rsqrt) (simp add: power2_eq_square)

text \<open>With such an average every step keeps at least 95 percent of the running price.\<close>

lemma price_floor_falling:
  assumes "- 0.026 \<le> a" and "\<forall>k. 0 \<le> rnd k" and "0 \<le> c" and "n \<le> 30"
  shows "c * (19 / 20) ^ n \<le> finite_price_after c a rnd n"
  using assms(4)
proof (induction n)
  case 0
  show ?case by simp
next
  case (Suc n)
  define P where "P = finite_price_after c a rnd n"
  define t where "t = total_change a rnd (Suc n)"
  define sn where "sn = sin ((real (Suc n) / 30) * 2 * pi)"
  define m where "m = real (Suc n)"
  define u where "u = rnd (Suc n - 1)"
  from Suc have IH: "c * (19 / 20) ^ n \<le> P" by (simp add: P_def)
  have "- 1 \<le> sn" unfolding sn_def by (rule sin_ge_minus_one)
  moreover have "m \<le> 30" using Suc.prems by (simp add: m_def)
  moreover have "0 \<le> u" using assms(2) by (simp add: u_def)
  moreover have "- (26 / 1000) \<le> a" using assms(1) by simp
  moreover have "t = a * 0.3 + sn * 0.02 + (u - 0.5) * 0.03 + - 0.0001 * m"
    by (simp only: t_def total_change_def sn_def m_def u_def)
  then have "t = a * (3 / 10) + sn / 50 + u * (3 / 100) - 3 / 200 - m / 10000"
    by (simp add: field_simps)
  ultimately have t: "19 / 20 \<le> 1 + t"
    by linarith
  have nn: "0 \<le> c * (19 / 20) ^ n" using assms(3) by simp
  with IH have "0 \<le> P" by linarith
  with IH t nn have "c * (19 / 20) ^ n * (19 / 20) \<le> P * (1 + t)"
    by (intro mult_mono) simp_all
  then show ?case by (simp add: P_def t_def)
qed

text \<open>The theorem on step 25 of a bitcoin run at price 65000 on the falling history.\<close>

theorem band_width_witness:
  "\<exists>a w. avgChange falling_history = Fin a
     \<and> predictedPrice (generateFuturePredictions ''bitcoin'' 65000 falling_history (\<lambda>k. 0) ! 24)
         = Fin (toFixed 2 (finite_price_after 65000 a (\<lambda>k. 0) 25))
     \<and> js_sub (range_high (generateFuturePredictions ''bitcoin'' 65000 falling_history (\<lambda>k. 0) ! 24))
              (range_low (generateFuturePredictions ''bitcoin'' 65000 falling_history (\<lambda>k. 0) ! 24))
         = Fin w
     \<and> \<bar>w - finite_price_after 65000 a (\<lambda>k. 0) 25 * 25 / 150\<bar> \<le> 1 / 100"
proof -
  from avgChange_falling obtain a where a: "avgChange falling_history = Fin a" by blast
  have i: "(24::nat) < 30" by simp
  have s: "Suc 24 = 25" "real (Suc 24) = 25" by simp_all
  note bw = band_width [OF a i, of "''bitcoin''" 65000 "\<lambda>k. 0"]
  from bw have "predictedPrice (generateFuturePredictions ''bitcoin'' 65000 falling_history (\<lambda>k. 0) ! 24)
         = Fin (toFixed 2 (finite_price_after 65000 a (\<lambda>k. 0) (Suc 24)))"
    by (rule conjunct1)
  then have A: "predictedPrice (generateFuturePredictions ''bitcoin'' 65000 falling_history (\<lambda>k. 0) ! 24)
         = Fin (toFixed 2 (finite_price_after 65000 a (\<lambda>k. 0) 25))"
    by (simp only: s)
  from bw [THEN conjunct2, THEN conjunct2, THEN conjunct2, THEN conjunct1]
  obtain w where "js_sub (range_high (generateFuturePredictions ''bitcoin'' 65000 falling_history (\<lambda>k. 0) ! 24))
              (range_low (generateFuturePredictions ''bitcoin'' 65000 falling_history (\<lambda>k. 0) ! 24))
         = Fin w"
    and "\<bar>w - finite_price_after 65000 a (\<lambda>k. 0) (Suc 24) * real (Suc 24) / 150\<bar> \<le> 1 / 100"
    by (elim exE conjE)
  then have B: "js_sub (range_high (generateFuturePredictions ''bitcoin'' 65000 falling_history (\<lambda>k. 0) ! 24))
              (range_low (generateFuturePredictions ''bitcoin'' 65000 falling_history (\<lambda>k. 0) ! 24))
         = Fin w"
    and C: "\<bar>w - finite_price_after 65000 a (\<lambda>k. 0) 25 * 25 / 150\<bar> \<le> 1 / 100"
    by (simp_all only: s of_nat_numeral)
  from a A B C show ?thesis by (intro exI conjI)
qed

text \<open>
  Claim C6 as stated fails. On the falling history, with every draw 0, the running price
  of a bitcoin run at price 65000 falls by more than 4.2 percent at step 25 (trend
  \<open>-0.0072\<close> or less, cycle \<open>-0.0173\<close>, noise \<open>-0.015\<close>, reversion \<open>-0.0025\<close>) while the
  half-width fraction grows by a 24th only, and the band of step 25 is narrower than the
  band of step 24.
\<close>

theorem band_width_counterexample:
  "js_lt (js_sub (range_high (generateFuturePredictions ''bitcoin'' 65000 falling_history
                                (\<lambda>k. 0) ! 24))
                 (range_low (generateFuturePredictions ''bitcoin'' 65000 falling_history
                                (\<lambda>k. 0) ! 24)))
         (js_sub (range_high (generateFuturePredictions ''bitcoin'' 65000 falling_history
                                (\<lambda>k. 0) ! 23))
                 (range_low (generateFuturePredictions ''bitcoin'' 65000 falling_history
                                (\<lambda>k. 0) ! 23)))"
proof -
  from avgChange_falling obtain a where a: "avgChange falling_history = Fin a"
    and lo: "- 0.026 \<le> a" and hi: "a \<le> - 0.024" by blast
  define P where "P = finite_price_after 65000 a (\<lambda>k. 0) 24"
  define Q where "Q = finite_price_after 65000 a (\<lambda>k. 0) 25"
  define t where "t = total_change a (\<lambda>k. 0) 25"
  define r3 where "r3 = sqrt (3::real)"
  have "(25::nat) = Suc 24" by simp
  then have Q: "Q = P * (1 + t)"
    by (simp only: Q_def P_def t_def finite_price_after.simps)
  have "t = a * 0.3 + sin ((real (25::nat) / 30) * 2 * pi) * 0.02 + (0 - 0.5) * 0.03
              + - 0.0001 * real (25::nat)"
    by (simp only: t_def total_change_def)
  then have "t = a * (3 / 10) - r3 / 100 - 7 / 400"
    by (simp only: sin_step_25 r3_def) simp
  moreover have "a \<le> - (24 / 1000)" using hi by simp
  moreover have "173 / 100 \<le> r3" unfolding r3_def by (rule sqrt3_lower)
  ultimately have t: "1 + t \<le> 958 / 1000" by linarith
  have "(65000::real) * (19 / 20) ^ 24 \<le> P"
    unfolding P_def by (rule price_floor_falling [OF lo]) simp_all
  moreover have "(18000::real) \<le> 65000 * (19 / 20) ^ 24" by (simp add: power_divide)
  ultimately have P: "18000 \<le> P" by linarith
  then have "P * (1 + t) \<le> P * (958 / 1000)"
    using t by (intro mult_left_mono) simp_all
  then have QP: "Q \<le> P * (958 / 1000)" by (simp only: Q)
  have s: "Suc 24 = 25" "Suc 23 = 24" by simp_all
  define W25 where "W25 = toFixed 2 (Q + Q * 0.1 * (real (Suc 24) / 30))
                          - toFixed 2 (Q - Q * 0.1 * (real (Suc 24) / 30))"
  define W24 where "W24 = toFixed 2 (P + P * 0.1 * (real (Suc 23) / 30))
                          - toFixed 2 (P - P * 0.1 * (real (Suc 23) / 30))"
  have "\<bar>W25 - Q * real (Suc 24) / 150\<bar> \<le> 1 / 100"
    and "\<bar>W24 - P * real (Suc 23) / 150\<bar> \<le> 1 / 100"
    unfolding W25_def W24_def by (rule rounded_width)+
  then have "\<bar>W25 - Q * 25 / 150\<bar> \<le> 1 / 100" and "\<bar>W24 - P * 24 / 150\<bar> \<le> 1 / 100"
    by (simp_all only: s of_nat_numeral)
  with QP P have lt: "W25 < W24" by linarith
  have w25: "js_sub (range_high (generateFuturePredictions ''bitcoin'' 65000 falling_history
                                (\<lambda>k. 0) ! 24))
                 (range_low (generateFuturePredictions ''bitcoin'' 65000 falling_history
                                (\<lambda>k. 0) ! 24)) = Fin W25"
    using band_width_of_step [OF a, of 24 "''bitcoin''" 65000 "\<lambda>k. 0"]
    by (simp only: W25_def Q_def s)
  have w24: "js_sub (range_high (generateFuturePredictions ''bitcoin'' 65000 falling_history
                                (\<lambda>k. 0) ! 23))
                 (range_low (generateFuturePredictions ''bitcoin'' 65000 falling_history
                                (\<lambda>k. 0) ! 23)) = Fin W24"
    using band_width_of_step [OF a, of 23 "''bitcoin''" 65000 "\<lambda>k. 0"]
    by (simp only: W24_def P_def s)
  from lt show ?thesis by (simp only: w25 w24 js_lt.simps)
qed

end
